theory Spec2Isabelle
  imports Main
begin

section \<open>Values exchanged with the provider\<close>

text \<open>
  The module \<^verbatim>\<open>apps/ops/src/aws/apprunner.ts\<close> talks to AWS App Runner through
  \<^verbatim>\<open>apprunner.send(command)\<close>. Every such call either resolves with a value or throws an
  error that the code tells apart by \<^verbatim>\<open>e.name\<close>.
\<close>

datatype 'a reply = Threw string | Got 'a

text \<open>
  The health-check and autoscaling settings are compared as attribute bags indexed by the
  setting's name (\<^verbatim>\<open>current[setting] !== desired[setting]\<close>); a missing attribute reads as
  \<^verbatim>\<open>undefined\<close>, here \<open>None\<close>. The numbers among the settings are sizes, counts and
  seconds, taken as integers.
\<close>

datatype jsval = Num int | Str string

type_synonym bag = "(string \<times> jsval) list"

definition attr :: "bag \<Rightarrow> string \<Rightarrow> jsval option" where
  "attr b k = map_of b k"

text \<open>JavaScript truthiness of an optional string or boolean, and \<^verbatim>\<open>x || ""\<close>.\<close>

definition truthy :: "string option \<Rightarrow> bool" where
  "truthy x = (case x of None \<Rightarrow> False | Some s \<Rightarrow> s \<noteq> [])"

definition truthyB :: "bool option \<Rightarrow> bool" where
  "truthyB x = (case x of None \<Rightarrow> False | Some b \<Rightarrow> b)"

definition orEmpty :: "string option \<Rightarrow> string" where
  "orEmpty x = (if truthy x then the x else [])"

record Tag =
  Key :: "string option"
  Value :: "string option"

record ServiceSummary =
  ServiceArn :: "string option"
  ServiceUrl :: "string option"
  Status :: "string option"

text \<open>
  Of a described \<^verbatim>\<open>Service\<close> the code reads the summary fields and, through optional
  chains, the leaves below; each chain
  (\<^verbatim>\<open>SourceConfiguration?.ImageRepository?.ImageIdentifier\<close> and so on) is one optional field.
\<close>

record Service = ServiceSummary +
  AutoScalingConfigurationSummaryArn :: "string option"
  HealthCheckConfiguration :: "bag option"
  InstanceCpu :: "string option"
  InstanceMemory :: "string option"
  ImageRepositoryImageIdentifier :: "string option"
  ImageRuntimeEnvironmentSecrets :: "(string \<times> string) list option"
  ImageRuntimeEnvironmentVariables :: "(string \<times> string) list option"

record AutoScalingConfigurationSummary =
  AutoScalingConfigurationArn :: "string option"
  HasAssociatedService :: "bool option"
  RevisionStatus :: "string option"

text \<open>The parts of the create and update requests, as the code builds them.\<close>

record ImageConfiguration =
  RuntimeEnvironmentSecrets :: "(string \<times> string) list"
  RuntimeEnvironmentVariables :: "(string \<times> string) list"

record SourceConfiguration =
  ImageIdentifier :: string
  ImageRepositoryType :: string
  ImageConfiguration :: "ImageConfiguration option"
  AutoDeploymentsEnabled :: bool
  AccessRoleArn :: string

record InstanceConfiguration =
  InstanceRoleArn :: string
  Cpu :: "string option"
  Memory :: "string option"

record AutoScalingSettings =
  minSize :: int
  maxSize :: int
  maxConcurrency :: int

record HealthCheckSettings =
  path :: string
  interval :: int
  timeout :: int
  healthyThreshold :: int
  unhealthyThreshold :: int

text \<open>
  \<^verbatim>\<open>EnsureAppRunnerOptions\<close> without its two callbacks: \<^verbatim>\<open>setAppRunnerUrl\<close> is an
  effect of the world below and \<^verbatim>\<open>logger\<close> only prints.
\<close>

record EnsureAppRunnerOptions =
  region :: string
  deployment :: string
  component :: string
  ecrRepositoryName :: string
  imageTag :: string
  autoScalingConfigurationName :: string
  autoScaling :: AutoScalingSettings
  healthCheck :: HealthCheckSettings
  appRunnerServiceName :: string
  appRunnerInstanceRoleArn :: string
  appRunnerCpu :: "string option"
  appRunnerMemory :: "string option"
  ignoreConfigKeys :: "string list"

section \<open>Effects\<close>

text \<open>
  A run is recorded as the chronological list of its effects, each with the answer it got.
  The positional arguments are the fields of the command's input in the order the source
  writes them:
  \<^item> \<open>UpdateService\<close>: ServiceArn, AutoScalingConfigurationArn, HealthCheckConfiguration,
    InstanceConfiguration, SourceConfiguration;
  \<^item> \<open>CreateService\<close>: ServiceName, SourceConfiguration, InstanceConfiguration, Tags,
    HealthCheckConfiguration, AutoScalingConfigurationArn, IsPubliclyAccessible;
  \<^item> \<open>CreateAutoScalingConfiguration\<close>: AutoScalingConfigurationName, the settings, Tags;
    of its answer the code reads only the new revision's arn;
  \<^item> \<open>ListAutoScalingConfigurations\<close> and \<open>ListServices\<close>: the \<^verbatim>\<open>NextToken\<close> of the input last;
    the answer is the optional summary list and the optional \<^verbatim>\<open>NextToken\<close>;
  \<^item> \<open>GetEcrRepositoryArn\<close>, \<open>GetConfig\<close>, \<open>SetAppRunnerUrl\<close>: the collaborators
    \<^verbatim>\<open>getEcrRepositoryArn\<close>, \<^verbatim>\<open>getConfig(region, deployment, true)[region]?.[deployment] || {}\<close>
    and \<^verbatim>\<open>options.setAppRunnerUrl\<close>;
  \<^item> \<open>Now\<close>: \<^verbatim>\<open>new Date().toISOString()\<close>; \<open>Sleep\<close>: the \<^verbatim>\<open>setTimeout\<close> of a poll, in seconds.
\<close>

datatype event =
    ListAutoScalingConfigurations string "string option"
      "(AutoScalingConfigurationSummary list option \<times> string option) reply"
  | DeleteAutoScalingConfiguration "string option" "unit reply"
  | DescribeAutoScalingConfiguration string "bag option reply"
  | CreateAutoScalingConfiguration string bag "Tag list" "string option reply"
  | DescribeService string "Service option reply"
  | UpdateService "string option" "string option" "bag option"
      "InstanceConfiguration option" "SourceConfiguration option" "unit reply"
  | TagResource "string option" "Tag list" "unit reply"
  | CreateService string SourceConfiguration InstanceConfiguration "Tag list" bag
      "string option" bool "Service option reply"
  | DeleteService string "unit reply"
  | ListServices "string option" "(ServiceSummary list option \<times> string option) reply"
  | ListTagsForResource string "Tag list option reply"
  | GetEcrRepositoryArn string string "string reply"
  | GetConfig string string "(string \<times> string) list reply"
  | SetAppRunnerUrl string "unit reply"
  | Now string
  | Sleep int

text \<open>
  The world answers every call; an answer may depend on everything that happened before
  (the trace so far), so a service polled twice may have changed in between. The constants
  \<^verbatim>\<open>TagKeys\<close> and the function \<^verbatim>\<open>getTags\<close> come from the module \<^verbatim>\<open>./defaults\<close> and are
  parameters here.
\<close>

record world =
  TagKeys_LetsGoDeployment :: string
  TagKeys_LetsGoComponent :: string
  getTags :: "string \<Rightarrow> string \<Rightarrow> (string \<times> string) list \<Rightarrow> Tag list"
  onListAutoScalingConfigurations :: "event list \<Rightarrow> string \<Rightarrow> string option \<Rightarrow>
    (AutoScalingConfigurationSummary list option \<times> string option) reply"
  onDeleteAutoScalingConfiguration :: "event list \<Rightarrow> string option \<Rightarrow> unit reply"
  onDescribeAutoScalingConfiguration :: "event list \<Rightarrow> string \<Rightarrow> bag option reply"
  onCreateAutoScalingConfiguration :: "event list \<Rightarrow> string \<Rightarrow> bag \<Rightarrow> Tag list \<Rightarrow>
    string option reply"
  onDescribeService :: "event list \<Rightarrow> string \<Rightarrow> Service option reply"
  onUpdateService :: "event list \<Rightarrow> string option \<Rightarrow> string option \<Rightarrow> bag option \<Rightarrow>
    InstanceConfiguration option \<Rightarrow> SourceConfiguration option \<Rightarrow> unit reply"
  onTagResource :: "event list \<Rightarrow> string option \<Rightarrow> Tag list \<Rightarrow> unit reply"
  onCreateService :: "event list \<Rightarrow> string \<Rightarrow> SourceConfiguration \<Rightarrow> InstanceConfiguration \<Rightarrow>
    Tag list \<Rightarrow> bag \<Rightarrow> string option \<Rightarrow> bool \<Rightarrow> Service option reply"
  onDeleteService :: "event list \<Rightarrow> string \<Rightarrow> unit reply"
  onListServices :: "event list \<Rightarrow> string option \<Rightarrow>
    (ServiceSummary list option \<times> string option) reply"
  onListTagsForResource :: "event list \<Rightarrow> string \<Rightarrow> Tag list option reply"
  onGetEcrRepositoryArn :: "event list \<Rightarrow> string \<Rightarrow> string \<Rightarrow> string reply"
  onGetConfig :: "event list \<Rightarrow> string \<Rightarrow> string \<Rightarrow> (string \<times> string) list reply"
  onSetAppRunnerUrl :: "event list \<Rightarrow> string \<Rightarrow> unit reply"
  onNow :: "event list \<Rightarrow> string"

text \<open>
  A function of the module ends in one of three ways: it returns, it calls
  \<^verbatim>\<open>process.exit(1)\<close> after printing a message, or an error thrown by a call escapes.
  The exits are told apart by the message printed before them.
\<close>

datatype fatal =
    UnexpectedStatusDeleting
  | UnexpectedStatusCreating
  | UpdateDidNotReachRunning
  | RolledBack
  | CreateDidNotReachRunning
  | DeleteInvalidState
  | DeleteDidNotReachDeleted
  | MultipleServices
  | BeingUpdated

datatype 'a outcome = Return 'a | Exit fatal | Throw string

type_synonym 'a run = "('a outcome \<times> event list) option"

text \<open>\<^verbatim>\<open>await apprunner.send(command)\<close> outside a \<^verbatim>\<open>try\<close>: a thrown error escapes.\<close>

definition send :: "(event list \<Rightarrow> 'a reply) \<Rightarrow> ('a reply \<Rightarrow> event) \<Rightarrow> event list \<Rightarrow> 'a run" where
  "send ask ev tr =
     (let r = ask tr
      in Some (case r of Threw name \<Rightarrow> Throw name | Got v \<Rightarrow> Return v, tr @ [ev r]))"

text \<open>Sequencing: the rest runs only after a normal return; \<open>None\<close> is a run that never ends.\<close>

definition andThen :: "'a run \<Rightarrow> ('a \<Rightarrow> event list \<Rightarrow> 'b run) \<Rightarrow> 'b run" where
  "andThen m f =
     (case m of
        None \<Rightarrow> None
      | Some (Return a, tr) \<Rightarrow> f a tr
      | Some (Exit x, tr) \<Rightarrow> Some (Exit x, tr)
      | Some (Throw name, tr) \<Rightarrow> Some (Throw name, tr))"

section \<open>The polling waiter\<close>

definition MaxWaitTimeForAppRunnerCreate :: int where
  "MaxWaitTimeForAppRunnerCreate = 60 * 15"

definition MaxWaitTimeForAppRunnerUpdate :: int where
  "MaxWaitTimeForAppRunnerUpdate = 60 * 15"

text \<open>The update of \<^verbatim>\<open>delay\<close> at the end of a poll iteration.\<close>

definition nextDelay :: "int \<Rightarrow> int \<Rightarrow> int" where
  "nextDelay clock delay =
     (if clock > 60 then 10 else if clock > 20 then 5 else if clock > 5 then 2 else delay)"

definition statusOf :: "Service option \<Rightarrow> string option" where
  "statusOf result = (case result of None \<Rightarrow> None | Some s \<Rightarrow> Status s)"

partial_function (option) waitLoop ::
  "world \<Rightarrow> string \<Rightarrow> int \<Rightarrow> bool \<Rightarrow> int \<Rightarrow> int \<Rightarrow> event list \<Rightarrow>
     (Service option outcome \<times> event list) option" where
  "waitLoop w serviceArn maxWait isDeleting clock delay tr =
     (let r = onDescribeService w tr serviceArn;
          tr1 = tr @ [DescribeService serviceArn r]
      in case r of
           Threw name \<Rightarrow>
             if name = ''ResourceNotFoundException'' \<and> isDeleting
             then Some (Return None, tr1)
             else Some (Throw name, tr1)
         | Got result \<Rightarrow>
             if isDeleting \<and> statusOf result = Some ''DELETED''
               then Some (Return None, tr1)
             else if isDeleting \<and> statusOf result \<noteq> Some ''OPERATION_IN_PROGRESS''
               then Some (Exit UnexpectedStatusDeleting, tr1)
             else if \<not> isDeleting \<and> statusOf result = Some ''RUNNING''
               then Some (Return result, tr1)
             else if \<not> isDeleting \<and> statusOf result \<noteq> Some ''OPERATION_IN_PROGRESS''
               then Some (Exit UnexpectedStatusCreating, tr1)
             else if clock \<ge> maxWait
               then Some (Return (if isDeleting then result else None), tr1)
             else waitLoop w serviceArn maxWait isDeleting
                    (clock + nextDelay clock delay) (nextDelay clock delay)
                    (tr1 @ [Sleep (nextDelay clock delay)]))"

definition waitForAppRunnerService ::
  "world \<Rightarrow> string \<Rightarrow> int \<Rightarrow> bool \<Rightarrow> event list \<Rightarrow> (Service option) run" where
  "waitForAppRunnerService w serviceArn maxWait isDeleting tr =
     waitLoop w serviceArn maxWait isDeleting 0 1 tr"

section \<open>Reclaiming unused autoscaling revisions\<close>

text \<open>The \<^verbatim>\<open>for\<close> loop over one page of \<^verbatim>\<open>deleteUnusedAutoScalingConfigurations\<close>.\<close>

fun deleteUnusedInPage ::
  "world \<Rightarrow> AutoScalingConfigurationSummary list \<Rightarrow> event list \<Rightarrow> unit outcome \<times> event list" where
  "deleteUnusedInPage w [] tr = (Return (), tr)"
| "deleteUnusedInPage w (revision # rest) tr =
     (if \<not> truthyB (HasAssociatedService revision) \<and> RevisionStatus revision = Some ''active''
      then
        (let r = onDeleteAutoScalingConfiguration w tr (AutoScalingConfigurationArn revision);
             tr1 = tr @ [DeleteAutoScalingConfiguration (AutoScalingConfigurationArn revision) r]
         in case r of
              Threw name \<Rightarrow> (Throw name, tr1)
            | Got u \<Rightarrow> deleteUnusedInPage w rest tr1)
      else deleteUnusedInPage w rest tr)"

text \<open>The \<^verbatim>\<open>while (true)\<close> loop over the pages; it ends at a page without \<^verbatim>\<open>NextToken\<close>.\<close>

partial_function (option) deleteUnusedLoop ::
  "world \<Rightarrow> string \<Rightarrow> string option \<Rightarrow> event list \<Rightarrow> (unit outcome \<times> event list) option" where
  "deleteUnusedLoop w name token tr =
     (let r = onListAutoScalingConfigurations w tr name token;
          tr1 = tr @ [ListAutoScalingConfigurations name token r]
      in case r of
           Threw e \<Rightarrow> Some (Throw e, tr1)
         | Got listResult \<Rightarrow>
             (case deleteUnusedInPage w
                     (case fst listResult of None \<Rightarrow> [] | Some revisions \<Rightarrow> revisions) tr1 of
                (Return u, tr2) \<Rightarrow>
                  if \<not> truthy (snd listResult) then Some (Return (), tr2)
                  else deleteUnusedLoop w name (snd listResult) tr2
              | (Exit x, tr2) \<Rightarrow> Some (Exit x, tr2)
              | (Throw e, tr2) \<Rightarrow> Some (Throw e, tr2)))"

definition deleteUnusedAutoScalingConfigurations ::
  "world \<Rightarrow> string \<Rightarrow> event list \<Rightarrow> unit run" where
  "deleteUnusedAutoScalingConfigurations w name tr = deleteUnusedLoop w name None tr"

section \<open>Listing and discovering services\<close>

text \<open>\<^verbatim>\<open>tagsResult.Tags?.find((tag) => tag.Key === key)?.Value\<close>\<close>

definition tagValue :: "Tag list option \<Rightarrow> string \<Rightarrow> string option" where
  "tagValue tags k =
     (case tags of
        None \<Rightarrow> None
      | Some ts \<Rightarrow> (case find (\<lambda>tag. Key tag = Some k) ts of None \<Rightarrow> None | Some t \<Rightarrow> Value t))"

text \<open>The test that guards \<^verbatim>\<open>services.push(service)\<close>.\<close>

definition letsGoMatch ::
  "world \<Rightarrow> string option \<Rightarrow> string option \<Rightarrow> Tag list option \<Rightarrow> bool" where
  "letsGoMatch w deploymentFilter componentFilter tags =
     (let deploymentValue = tagValue tags (TagKeys_LetsGoDeployment w);
          componentValue = tagValue tags (TagKeys_LetsGoComponent w)
      in truthy deploymentValue \<and> truthy componentValue \<and>
         (\<not> truthy deploymentFilter \<or> deploymentFilter = deploymentValue) \<and>
         (\<not> truthy componentFilter \<or> componentFilter = componentValue))"

fun listServicesInPage ::
  "world \<Rightarrow> string option \<Rightarrow> string option \<Rightarrow> ServiceSummary list \<Rightarrow> ServiceSummary list \<Rightarrow>
     event list \<Rightarrow> ServiceSummary list outcome \<times> event list" where
  "listServicesInPage w deploymentFilter componentFilter [] services tr = (Return services, tr)"
| "listServicesInPage w deploymentFilter componentFilter (service # rest) services tr =
     (let r = onListTagsForResource w tr (orEmpty (ServiceArn service));
          tr1 = tr @ [ListTagsForResource (orEmpty (ServiceArn service)) r]
      in case r of
           Threw e \<Rightarrow> (Throw e, tr1)
         | Got tags \<Rightarrow>
             if letsGoMatch w deploymentFilter componentFilter tags
             then listServicesInPage w deploymentFilter componentFilter rest (services @ [service]) tr1
             else listServicesInPage w deploymentFilter componentFilter rest services tr1)"

partial_function (option) listServicesLoop ::
  "world \<Rightarrow> string option \<Rightarrow> string option \<Rightarrow> string option \<Rightarrow> ServiceSummary list \<Rightarrow>
     event list \<Rightarrow> (ServiceSummary list outcome \<times> event list) option" where
  "listServicesLoop w deploymentFilter componentFilter token services tr =
     (let r = onListServices w tr token;
          tr1 = tr @ [ListServices token r]
      in case r of
           Threw e \<Rightarrow> Some (Throw e, tr1)
         | Got result \<Rightarrow>
             (case listServicesInPage w deploymentFilter componentFilter
                     (case fst result of None \<Rightarrow> [] | Some page \<Rightarrow> page) services tr1 of
                (Return services', tr2) \<Rightarrow>
                  if \<not> truthy (snd result) then Some (Return services', tr2)
                  else listServicesLoop w deploymentFilter componentFilter (snd result) services' tr2
              | (Exit x, tr2) \<Rightarrow> Some (Exit x, tr2)
              | (Throw e, tr2) \<Rightarrow> Some (Throw e, tr2)))"

definition listLetsGoAppRunnerServices ::
  "world \<Rightarrow> string option \<Rightarrow> string option \<Rightarrow> event list \<Rightarrow> (ServiceSummary list) run" where
  "listLetsGoAppRunnerServices w deploymentFilter componentFilter tr =
     listServicesLoop w deploymentFilter componentFilter None [] tr"

definition getOneLetsGoAppRunnerService ::
  "world \<Rightarrow> EnsureAppRunnerOptions \<Rightarrow> event list \<Rightarrow> (ServiceSummary option) run" where
  "getOneLetsGoAppRunnerService w options tr =
     andThen (listLetsGoAppRunnerServices w (Some (deployment options)) (Some (component options)) tr)
       (\<lambda>existingServices tr.
          if length existingServices > 1 then Some (Exit MultipleServices, tr)
          else if length existingServices = 0 then Some (Return None, tr)
          else Some (Return (Some (hd existingServices)), tr))"

definition describeService :: "world \<Rightarrow> string option \<Rightarrow> event list \<Rightarrow> (Service option) run" where
  "describeService w serviceArn tr =
     (if \<not> truthy serviceArn then Some (Return None, tr)
      else
        (let r = onDescribeService w tr (orEmpty serviceArn);
             tr1 = tr @ [DescribeService (orEmpty serviceArn) r]
         in case r of
              Threw name \<Rightarrow>
                if name \<noteq> ''ResourceNotFoundException'' then Some (Throw name, tr1)
                else Some (Return None, tr1)
            | Got result \<Rightarrow> Some (Return result, tr1)))"

section \<open>The delete flow\<close>

definition deleteAppRunnerService :: "world \<Rightarrow> string \<Rightarrow> event list \<Rightarrow> unit run" where
  "deleteAppRunnerService w serviceArn tr =
     (let r = onDeleteService w tr serviceArn;
          tr1 = tr @ [DeleteService serviceArn r]
      in case r of
           Threw name \<Rightarrow>
             if name = ''InvalidStateException'' then Some (Exit DeleteInvalidState, tr1)
             else if name \<noteq> ''ResourceNotFoundException'' then Some (Throw name, tr1)
             else Some (Return (), tr1)
         | Got u \<Rightarrow>
             andThen (waitForAppRunnerService w serviceArn MaxWaitTimeForAppRunnerUpdate True tr1)
               (\<lambda>service tr.
                  if service \<noteq> None then Some (Exit DeleteDidNotReachDeleted, tr)
                  else Some (Return (), tr)))"

section \<open>The create flow\<close>

definition getAutoScalingSettings :: "EnsureAppRunnerOptions \<Rightarrow> bag" where
  "getAutoScalingSettings options =
     [(''MaxConcurrency'', Num (maxConcurrency (autoScaling options))),
      (''MaxSize'', Num (maxSize (autoScaling options))),
      (''MinSize'', Num (minSize (autoScaling options)))]"

definition getHealthCheckSettings :: "EnsureAppRunnerOptions \<Rightarrow> bag" where
  "getHealthCheckSettings options =
     [(''Protocol'', Str ''HTTP''),
      (''Path'', Str (path (healthCheck options))),
      (''Interval'', Num (interval (healthCheck options))),
      (''Timeout'', Num (timeout (healthCheck options))),
      (''HealthyThreshold'', Num (healthyThreshold (healthCheck options))),
      (''UnhealthyThreshold'', Num (unhealthyThreshold (healthCheck options)))]"

text \<open>\<^verbatim>\<open>getTags(options.region, options.deployment, {[TagKeys.LetsGoComponent]: options.component})\<close>\<close>

definition serviceTags :: "world \<Rightarrow> EnsureAppRunnerOptions \<Rightarrow> Tag list" where
  "serviceTags w options =
     getTags w (region options) (deployment options)
       [(TagKeys_LetsGoComponent w, component options)]"

text \<open>The \<^verbatim>\<open>RuntimeEnvironmentVariables\<close> both flows write, with the time stamp given.\<close>

definition runtimeEnvironmentVariables ::
  "EnsureAppRunnerOptions \<Rightarrow> string \<Rightarrow> (string \<times> string) list" where
  "runtimeEnvironmentVariables options updatedAt =
     [(''LETSGO_IMAGE_TAG'', imageTag options),
      (''LETSGO_DEPLOYMENT'', deployment options),
      (''LETSGO_UPDATED_AT'', updatedAt),
      (''HOSTNAME'', ''0.0.0.0'')]"

definition instanceConfigurationOf :: "EnsureAppRunnerOptions \<Rightarrow> InstanceConfiguration" where
  "instanceConfigurationOf options =
     \<lparr>InstanceRoleArn = appRunnerInstanceRoleArn options,
      Cpu = appRunnerCpu options,
      Memory = appRunnerMemory options\<rparr>"

definition sourceConfigurationOf ::
  "EnsureAppRunnerOptions \<Rightarrow> string \<Rightarrow> ImageConfiguration option \<Rightarrow> SourceConfiguration" where
  "sourceConfigurationOf options ecrRepositoryUrl imageConfiguration =
     \<lparr>ImageIdentifier = ecrRepositoryUrl @ '':'' @ imageTag options,
      ImageRepositoryType = ''ECR'',
      ImageConfiguration = imageConfiguration,
      AutoDeploymentsEnabled = False,
      AccessRoleArn = appRunnerInstanceRoleArn options\<rparr>"

definition createAppRunnerService :: "world \<Rightarrow> EnsureAppRunnerOptions \<Rightarrow> event list \<Rightarrow> unit run" where
  "createAppRunnerService w options tr0 =
     andThen (send (\<lambda>tr. onGetEcrRepositoryArn w tr (region options) (ecrRepositoryName options))
                (GetEcrRepositoryArn (region options) (ecrRepositoryName options)) tr0)
       (\<lambda>ecrRepositoryUrl tr.
     andThen (deleteUnusedAutoScalingConfigurations w (autoScalingConfigurationName options) tr)
       (\<lambda>u tr.
     andThen (send (\<lambda>tr. onCreateAutoScalingConfiguration w tr
                       (autoScalingConfigurationName options) (getAutoScalingSettings options)
                       (serviceTags w options))
                (CreateAutoScalingConfiguration (autoScalingConfigurationName options)
                   (getAutoScalingSettings options) (serviceTags w options)) tr)
       (\<lambda>autoScalingConfigurationArn tr.
     andThen (send (\<lambda>tr. onGetConfig w tr (region options) (deployment options))
                (GetConfig (region options) (deployment options)) tr)
       (\<lambda>config tr.
     let updatedAt = onNow w tr;
         source = sourceConfigurationOf options ecrRepositoryUrl
                    (Some \<lparr>RuntimeEnvironmentSecrets = config,
                           RuntimeEnvironmentVariables =
                             runtimeEnvironmentVariables options updatedAt\<rparr>)
     in
     andThen (send (\<lambda>tr. onCreateService w tr (appRunnerServiceName options) source
                       (instanceConfigurationOf options) (serviceTags w options)
                       (getHealthCheckSettings options) autoScalingConfigurationArn True)
                (CreateService (appRunnerServiceName options) source
                   (instanceConfigurationOf options) (serviceTags w options)
                   (getHealthCheckSettings options) autoScalingConfigurationArn True)
                (tr @ [Now updatedAt]))
       (\<lambda>created tr.
     let url = (case created of None \<Rightarrow> None | Some s \<Rightarrow> ServiceUrl s);
         arn = (case created of None \<Rightarrow> None | Some s \<Rightarrow> ServiceArn s);
         shown = (if truthy url then ''https://'' @ orEmpty url else [])
     in
     andThen (send (\<lambda>tr. onSetAppRunnerUrl w tr shown) (SetAppRunnerUrl shown) tr)
       (\<lambda>u tr.
     andThen (waitForAppRunnerService w (orEmpty arn) MaxWaitTimeForAppRunnerCreate False tr)
       (\<lambda>service tr.
          if service \<noteq> None then Some (Return (), tr)
          else Some (Exit CreateDidNotReachRunning, tr))))))))"

section \<open>The update flow\<close>

text \<open>The five tests of \<^verbatim>\<open>updateAppRunnerService\<close>.\<close>

definition autoScalingNeedsUpdate :: "bag \<Rightarrow> bag \<Rightarrow> bool" where
  "autoScalingNeedsUpdate currentAutoScalingSettings desiredAutoScalingSettings =
     (find (\<lambda>setting. attr currentAutoScalingSettings setting \<noteq>
                       attr desiredAutoScalingSettings setting)
        [''MaxConcurrency'', ''MinSize'', ''MaxSize''] \<noteq> None)"

definition healthCheckNeedsUpdate :: "bag \<Rightarrow> bag \<Rightarrow> bool" where
  "healthCheckNeedsUpdate currentHealthCheckSettings desiredHealthCheckSettings =
     (find (\<lambda>setting. attr currentHealthCheckSettings setting \<noteq>
                       attr desiredHealthCheckSettings setting)
        [''Path'', ''Interval'', ''Timeout'', ''HealthyThreshold'', ''UnhealthyThreshold'']
      \<noteq> None)"

definition instanceConfigurationNeedsUpdate :: "Service \<Rightarrow> EnsureAppRunnerOptions \<Rightarrow> bool" where
  "instanceConfigurationNeedsUpdate existingService options =
     (InstanceCpu existingService \<noteq> appRunnerCpu options \<or>
      InstanceMemory existingService \<noteq> appRunnerMemory options)"

definition imageNeedsUpdate :: "Service \<Rightarrow> string \<Rightarrow> EnsureAppRunnerOptions \<Rightarrow> bool" where
  "imageNeedsUpdate existingService ecrRepositoryUrl options =
     (orEmpty (ImageRepositoryImageIdentifier existingService) \<noteq>
      ecrRepositoryUrl @ '':'' @ imageTag options)"

definition configNeedsUpdate ::
  "(string \<times> string) list option \<Rightarrow> (string \<times> string) list \<Rightarrow> string list \<Rightarrow> bool" where
  "configNeedsUpdate currentSecrets desiredConfig ignored =
     (let currentConfigKeys = map fst (case currentSecrets of None \<Rightarrow> [] | Some c \<Rightarrow> c);
          desiredConfigKeys = map fst desiredConfig
      in find (\<lambda>key. key \<notin> set currentConfigKeys \<and> key \<notin> set ignored) desiredConfigKeys \<noteq> None \<or>
         find (\<lambda>key. key \<notin> set desiredConfigKeys \<and> key \<notin> set ignored) currentConfigKeys \<noteq> None)"

text \<open>
  What the first half of \<^verbatim>\<open>updateAppRunnerService\<close> has established when it reaches
  \<^verbatim>\<open>const updatePlan\<close>: the registry address, the arn of the revision it may have created,
  the four remaining tests and the desired bindings.
\<close>

record UpdateNeeds =
  registryUrl :: string
  newAutoScalingConfigurationArn :: "string option"
  healthCheckNeeds :: bool
  instanceConfigurationNeeds :: bool
  imageNeeds :: bool
  configNeeds :: bool
  desiredBindings :: "(string \<times> string) list"

definition updatePlan :: "UpdateNeeds \<Rightarrow> string list" where
  "updatePlan needs =
     (if truthy (newAutoScalingConfigurationArn needs) then [''autoscaling settings''] else []) @
     (if healthCheckNeeds needs then [''healthcheck settings''] else []) @
     (if instanceConfigurationNeeds needs then [''instance configuration''] else []) @
     (if imageNeeds needs then [''image''] else []) @
     (if configNeeds needs then [''variables''] else [])"

text \<open>The tests that need no call, gathered with what the calls returned.\<close>

definition diffNeeds ::
  "EnsureAppRunnerOptions \<Rightarrow> Service \<Rightarrow> string \<Rightarrow> string option \<Rightarrow> (string \<times> string) list \<Rightarrow>
     UpdateNeeds" where
  "diffNeeds options existingService ecrRepositoryUrl newArn desiredConfig =
     \<lparr>registryUrl = ecrRepositoryUrl,
      newAutoScalingConfigurationArn = newArn,
      healthCheckNeeds =
        healthCheckNeedsUpdate
          (case HealthCheckConfiguration existingService of None \<Rightarrow> [] | Some c \<Rightarrow> c)
          (getHealthCheckSettings options),
      instanceConfigurationNeeds = instanceConfigurationNeedsUpdate existingService options,
      imageNeeds = imageNeedsUpdate existingService ecrRepositoryUrl options,
      configNeeds =
        configNeedsUpdate (ImageRuntimeEnvironmentSecrets existingService) desiredConfig
          (ignoreConfigKeys options),
      desiredBindings = desiredConfig\<rparr>"

text \<open>Lines 205 to 310: everything up to the update plan.\<close>

definition computeUpdatePlan ::
  "world \<Rightarrow> EnsureAppRunnerOptions \<Rightarrow> Service \<Rightarrow> event list \<Rightarrow> UpdateNeeds run" where
  "computeUpdatePlan w options existingService tr0 =
     andThen (send (\<lambda>tr. onGetEcrRepositoryArn w tr (region options) (ecrRepositoryName options))
                (GetEcrRepositoryArn (region options) (ecrRepositoryName options)) tr0)
       (\<lambda>ecrRepositoryUrl tr.
     andThen (deleteUnusedAutoScalingConfigurations w (autoScalingConfigurationName options) tr)
       (\<lambda>u tr.
     andThen (send (\<lambda>tr. onDescribeAutoScalingConfiguration w tr
                       (orEmpty (AutoScalingConfigurationSummaryArn existingService)))
                (DescribeAutoScalingConfiguration
                   (orEmpty (AutoScalingConfigurationSummaryArn existingService))) tr)
       (\<lambda>configuration tr.
     andThen (if autoScalingNeedsUpdate (case configuration of None \<Rightarrow> [] | Some c \<Rightarrow> c)
                   (getAutoScalingSettings options)
              then send (\<lambda>tr. onCreateAutoScalingConfiguration w tr
                           (autoScalingConfigurationName options) (getAutoScalingSettings options)
                           (serviceTags w options))
                     (CreateAutoScalingConfiguration (autoScalingConfigurationName options)
                        (getAutoScalingSettings options) (serviceTags w options)) tr
              else Some (Return None, tr))
       (\<lambda>newArn tr.
     andThen (send (\<lambda>tr. onGetConfig w tr (region options) (deployment options))
                (GetConfig (region options) (deployment options)) tr)
       (\<lambda>desiredConfig tr.
          Some (Return (diffNeeds options existingService ecrRepositoryUrl newArn desiredConfig),
                tr))))))"

text \<open>
  \<^verbatim>\<open>service.SourceConfiguration?.ImageRepository?.ImageConfiguration
  ?.RuntimeEnvironmentVariables?.LETSGO_UPDATED_AT\<close>
\<close>

definition stampOf :: "Service \<Rightarrow> string option" where
  "stampOf service =
     (case ImageRuntimeEnvironmentVariables service of
        None \<Rightarrow> None
      | Some variables \<Rightarrow> map_of variables ''LETSGO_UPDATED_AT'')"

text \<open>The \<^verbatim>\<open>SourceConfiguration\<close> of the update request, absent when neither test asks for it.\<close>

definition updateSourceConfiguration ::
  "EnsureAppRunnerOptions \<Rightarrow> UpdateNeeds \<Rightarrow> string \<Rightarrow> SourceConfiguration option" where
  "updateSourceConfiguration options needs updatedAt =
     (if imageNeeds needs \<or> configNeeds needs
      then Some (sourceConfigurationOf options (registryUrl needs)
             (if configNeeds needs
              then Some \<lparr>RuntimeEnvironmentSecrets = desiredBindings needs,
                         RuntimeEnvironmentVariables =
                           runtimeEnvironmentVariables options updatedAt\<rparr>
              else None))
      else None)"

text \<open>Lines 311 to 416: the guarded update, tagging, wait and check of the time stamp.\<close>

definition applyUpdatePlan ::
  "world \<Rightarrow> EnsureAppRunnerOptions \<Rightarrow> Service \<Rightarrow> UpdateNeeds \<Rightarrow> event list \<Rightarrow> unit run" where
  "applyUpdatePlan w options existingService needs tr0 =
     (if length (updatePlan needs) > 0 then
        (let updatedAt = onNow w tr0;
             arn = (if truthy (newAutoScalingConfigurationArn needs)
                    then newAutoScalingConfigurationArn needs else None);
             health = (if healthCheckNeeds needs then Some (getHealthCheckSettings options)
                       else None);
             instance = (if instanceConfigurationNeeds needs
                         then Some (instanceConfigurationOf options) else None);
             source = updateSourceConfiguration options needs updatedAt
         in
         andThen (send (\<lambda>tr. onUpdateService w tr (ServiceArn existingService) arn health
                           instance source)
                    (UpdateService (ServiceArn existingService) arn health instance source)
                    (tr0 @ [Now updatedAt]))
           (\<lambda>u tr.
         andThen (send (\<lambda>tr. onTagResource w tr (ServiceArn existingService)
                           (serviceTags w options))
                    (TagResource (ServiceArn existingService) (serviceTags w options)) tr)
           (\<lambda>u tr.
         andThen (waitForAppRunnerService w (orEmpty (ServiceArn existingService))
                    MaxWaitTimeForAppRunnerUpdate False tr)
           (\<lambda>service tr.
              case service of
                None \<Rightarrow> Some (Exit UpdateDidNotReachRunning, tr)
              | Some s \<Rightarrow>
                  if stampOf s \<noteq> Some updatedAt then Some (Exit RolledBack, tr)
                  else Some (Return (), tr)))))
      else Some (Return (), tr0))"

definition updateAppRunnerService ::
  "world \<Rightarrow> EnsureAppRunnerOptions \<Rightarrow> Service \<Rightarrow> event list \<Rightarrow> unit run" where
  "updateAppRunnerService w options existingService tr =
     andThen (computeUpdatePlan w options existingService tr)
       (applyUpdatePlan w options existingService)"

section \<open>The orchestrator\<close>

definition summaryStatus :: "ServiceSummary option \<Rightarrow> string option" where
  "summaryStatus summary = (case summary of None \<Rightarrow> None | Some s \<Rightarrow> Status s)"

definition ensureAppRunner :: "world \<Rightarrow> EnsureAppRunnerOptions \<Rightarrow> event list \<Rightarrow> unit run" where
  "ensureAppRunner w options tr0 =
     andThen (getOneLetsGoAppRunnerService w options tr0)
       (\<lambda>discovered tr.
          if summaryStatus discovered = Some ''OPERATION_IN_PROGRESS''
          then Some (Exit BeingUpdated, tr)
          else
            andThen
              (case discovered of
                 None \<Rightarrow> Some (Return None, tr)
               | Some s \<Rightarrow>
                   if Status s = Some ''CREATE_FAILED''
                   then andThen (deleteAppRunnerService w (orEmpty (ServiceArn s)) tr)
                          (\<lambda>u tr. Some (Return None, tr))
                   else Some (Return (Some s), tr))
              (\<lambda>existingServiceSummary tr.
                 andThen
                   (case existingServiceSummary of
                      None \<Rightarrow> Some (Return None, tr)
                    | Some s \<Rightarrow> describeService w (ServiceArn s) tr)
                   (\<lambda>existingService tr.
                      case existingService of
                        None \<Rightarrow> createAppRunnerService w options tr
                      | Some service \<Rightarrow>
                          if summaryStatus existingServiceSummary = Some ''DELETED''
                          then createAppRunnerService w options tr
                          else updateAppRunnerService w options service tr)))"

section \<open>Reading a trace\<close>

text \<open>The seconds slept in a trace, and whether every sleep follows a delay schedule.\<close>

primrec slept :: "event list \<Rightarrow> int" where
  "slept [] = 0"
| "slept (e # es) = (case e of Sleep d \<Rightarrow> d + slept es | _ \<Rightarrow> slept es)"

primrec sleeps :: "event list \<Rightarrow> int list" where
  "sleeps [] = []"
| "sleeps (e # es) = (case e of Sleep d \<Rightarrow> d # sleeps es | _ \<Rightarrow> sleeps es)"

primrec followsSchedule :: "(int \<Rightarrow> int) \<Rightarrow> int \<Rightarrow> event list \<Rightarrow> bool" where
  "followsSchedule sched elapsed [] = True"
| "followsSchedule sched elapsed (e # es) =
     (case e of
        Sleep d \<Rightarrow> d = sched elapsed \<and> followsSchedule sched (elapsed + d) es
      | _ \<Rightarrow> followsSchedule sched elapsed es)"

text \<open>The schedule the waiter keeps: the bounds 5, 20 and 60 belong to the slower side.\<close>

definition delayAfter :: "int \<Rightarrow> int" where
  "delayAfter elapsed =
     (if elapsed > 60 then 10 else if elapsed > 20 then 5 else if elapsed > 5 then 2 else 1)"

text \<open>
  The schedule in the specification's words:
  \<^verbatim>\<open>[0,5) -> 1s, [5,20) -> 2s, [20,60) -> 5s, [60,inf) -> 10s\<close>.
\<close>

definition specifiedDelay :: "int \<Rightarrow> int" where
  "specifiedDelay elapsed =
     (if elapsed < 5 then 1 else if elapsed < 20 then 2 else if elapsed < 60 then 5 else 10)"

text \<open>
  What one describe call of the waiter showed: the service still in progress, or gone (the
  call failed with \<^verbatim>\<open>ResourceNotFoundException\<close>, or the status read \<^verbatim>\<open>DELETED\<close>).
\<close>

definition inProgress :: "Service option reply \<Rightarrow> bool" where
  "inProgress r =
     (case r of
        Threw name \<Rightarrow> False
      | Got result \<Rightarrow> statusOf result = Some ''OPERATION_IN_PROGRESS'')"

definition serviceGone :: "Service option reply \<Rightarrow> bool" where
  "serviceGone r =
     (case r of
        Threw name \<Rightarrow> name = ''ResourceNotFoundException''
      | Got result \<Rightarrow> statusOf result = Some ''DELETED'')"

text \<open>
  The events of a paced wait for one service, for a schedule and the seconds elapsed so far:
  describe calls for that service, each but the last answered in progress and followed by
  exactly one sleep, of the length the schedule gives for the seconds elapsed; the last
  describe ends the list.
\<close>

fun polled :: "string \<Rightarrow> (int \<Rightarrow> int) \<Rightarrow> int \<Rightarrow> event list \<Rightarrow> bool" where
  "polled arn sched elapsed [] = False"
| "polled arn sched elapsed [e] =
     (case e of DescribeService a r \<Rightarrow> a = arn | _ \<Rightarrow> False)"
| "polled arn sched elapsed (e # s # rest) =
     (case e of
        DescribeService a r \<Rightarrow>
          a = arn \<and> inProgress r \<and>
          (case s of
             Sleep d \<Rightarrow> d = sched elapsed \<and> polled arn sched (elapsed + d) rest
           | _ \<Rightarrow> False)
      | _ \<Rightarrow> False)"

text \<open>Kinds of calls.\<close>

definition isReclaimCall :: "event \<Rightarrow> bool" where
  "isReclaimCall e =
     (case e of
        ListAutoScalingConfigurations name token r \<Rightarrow> True
      | DeleteAutoScalingConfiguration arn r \<Rightarrow> True
      | _ \<Rightarrow> False)"


definition isListingCall :: "event \<Rightarrow> bool" where
  "isListingCall e =
     (case e of ListServices token r \<Rightarrow> True | ListTagsForResource arn r \<Rightarrow> True | _ \<Rightarrow> False)"

text \<open>The calls made on the way to the update plan.\<close>

definition isPlanningCall :: "event \<Rightarrow> bool" where
  "isPlanningCall e =
     (case e of
        GetEcrRepositoryArn r name reply \<Rightarrow> True
      | ListAutoScalingConfigurations name token r \<Rightarrow> True
      | DeleteAutoScalingConfiguration arn r \<Rightarrow> True
      | DescribeAutoScalingConfiguration arn r \<Rightarrow> True
      | CreateAutoScalingConfiguration name settings tags r \<Rightarrow> True
      | GetConfig r d reply \<Rightarrow> True
      | _ \<Rightarrow> False)"

text \<open>
  The pages a trace has listed, each with the token it was asked with, its entries and the
  \<^verbatim>\<open>NextToken\<close> it came with; and the revisions whose deletion was answered.
\<close>

primrec revisionPages ::
  "event list \<Rightarrow> (string option \<times> AutoScalingConfigurationSummary list \<times> string option) list" where
  "revisionPages [] = []"
| "revisionPages (e # es) =
     (case e of
        ListAutoScalingConfigurations name token (Got listResult) \<Rightarrow>
          [(token, (case fst listResult of None \<Rightarrow> [] | Some revisions \<Rightarrow> revisions),
            snd listResult)]
      | _ \<Rightarrow> []) @ revisionPages es"

primrec servicePages ::
  "event list \<Rightarrow> (string option \<times> ServiceSummary list \<times> string option) list" where
  "servicePages [] = []"
| "servicePages (e # es) =
     (case e of
        ListServices token (Got result) \<Rightarrow>
          [(token, (case fst result of None \<Rightarrow> [] | Some page \<Rightarrow> page), snd result)]
      | _ \<Rightarrow> []) @ servicePages es"

primrec deletedRevisions :: "event list \<Rightarrow> string option list" where
  "deletedRevisions [] = []"
| "deletedRevisions (e # es) =
     (case e of DeleteAutoScalingConfiguration arn (Got u) \<Rightarrow> [arn] | _ \<Rightarrow> []) @
     deletedRevisions es"

definition listed :: "(string option \<times> 'a list \<times> string option) list \<Rightarrow> 'a list" where
  "listed pages = concat (map (\<lambda>p. fst (snd p)) pages)"

text \<open>
  The pages were drained: the first was asked with the given token, each further one with
  the \<^verbatim>\<open>NextToken\<close> of the one before, and the last came without a \<^verbatim>\<open>NextToken\<close>.
\<close>

fun drained :: "string option \<Rightarrow> (string option \<times> 'a list \<times> string option) list \<Rightarrow> bool" where
  "drained token [] = False"
| "drained token (p # rest) =
     (fst p = token \<and>
      (if truthy (snd (snd p)) then drained (snd (snd p)) rest else rest = []))"

text \<open>An answered tags call for the service that shows both LetsGo tags with a value.\<close>

definition showsBothTags :: "world \<Rightarrow> ServiceSummary \<Rightarrow> event \<Rightarrow> bool" where
  "showsBothTags w service e =
     (case e of
        ListTagsForResource arn (Got tags) \<Rightarrow>
          arn = orEmpty (ServiceArn service) \<and>
          truthy (tagValue tags (TagKeys_LetsGoDeployment w)) \<and>
          truthy (tagValue tags (TagKeys_LetsGoComponent w))
      | _ \<Rightarrow> False)"

text \<open>A step only adds to the trace, and only events of one kind.\<close>

definition emits :: "(event \<Rightarrow> bool) \<Rightarrow> (event list \<Rightarrow> 'a run) \<Rightarrow> bool" where
  "emits Q p = (\<forall>tr r. p tr = Some r \<longrightarrow> (\<exists>evs. snd r = tr @ evs \<and> list_all Q evs))"

section \<open>The categories of the update plan, in the specification's words\<close>

datatype category = Autoscaling | Healthcheck | Instance | Image | Variables

text \<open>The name under which \<^verbatim>\<open>updatePlan\<close> lists a category.\<close>

definition categoryLabel :: "category \<Rightarrow> string" where
  "categoryLabel c =
     (case c of
        Autoscaling \<Rightarrow> ''autoscaling settings''
      | Healthcheck \<Rightarrow> ''healthcheck settings''
      | Instance \<Rightarrow> ''instance configuration''
      | Image \<Rightarrow> ''image''
      | Variables \<Rightarrow> ''variables'')"

text \<open>
  The per-category rules of the specification, field by field: the observed revision and
  service against the desired options, the resolved registry address and the desired
  bindings.
\<close>

definition differsIn ::
  "category \<Rightarrow> EnsureAppRunnerOptions \<Rightarrow> bag \<Rightarrow> Service \<Rightarrow> string \<Rightarrow> (string \<times> string) list \<Rightarrow> bool"
  where
  "differsIn c options currentRevision observed registry desiredConfig =
     (case c of
        Autoscaling \<Rightarrow>
          attr currentRevision ''MaxConcurrency'' \<noteq> Some (Num (maxConcurrency (autoScaling options))) \<or>
          attr currentRevision ''MinSize'' \<noteq> Some (Num (minSize (autoScaling options))) \<or>
          attr currentRevision ''MaxSize'' \<noteq> Some (Num (maxSize (autoScaling options)))
      | Healthcheck \<Rightarrow>
          (let current = (case HealthCheckConfiguration observed of None \<Rightarrow> [] | Some h \<Rightarrow> h)
           in attr current ''Path'' \<noteq> Some (Str (path (healthCheck options))) \<or>
              attr current ''Interval'' \<noteq> Some (Num (interval (healthCheck options))) \<or>
              attr current ''Timeout'' \<noteq> Some (Num (timeout (healthCheck options))) \<or>
              attr current ''HealthyThreshold'' \<noteq>
                Some (Num (healthyThreshold (healthCheck options))) \<or>
              attr current ''UnhealthyThreshold'' \<noteq>
                Some (Num (unhealthyThreshold (healthCheck options))))
      | Instance \<Rightarrow>
          InstanceCpu observed \<noteq> appRunnerCpu options \<or>
          InstanceMemory observed \<noteq> appRunnerMemory options
      | Image \<Rightarrow>
          ImageRepositoryImageIdentifier observed \<noteq> Some (registry @ '':'' @ imageTag options)
      | Variables \<Rightarrow>
          (let currentKeys =
                 fst ` set (case ImageRuntimeEnvironmentSecrets observed of
                              None \<Rightarrow> [] | Some c \<Rightarrow> c) - set (ignoreConfigKeys options);
               desiredKeys = fst ` set desiredConfig - set (ignoreConfigKeys options)
           in (desiredKeys - currentKeys) \<union> (currentKeys - desiredKeys) \<noteq> {}))"

section \<open>Example worlds\<close>

text \<open>A world in which every call succeeds with an empty answer.\<close>

definition quietWorld :: world where
  "quietWorld =
     \<lparr>TagKeys_LetsGoDeployment = ''LetsGoDeployment'',
      TagKeys_LetsGoComponent = ''LetsGoComponent'',
      getTags = (\<lambda>r d extra. map (\<lambda>kv. \<lparr>Key = Some (fst kv), Value = Some (snd kv)\<rparr>)
                   ((''LetsGoDeployment'', d) # extra)),
      onListAutoScalingConfigurations = (\<lambda>tr name token. Got (None, None)),
      onDeleteAutoScalingConfiguration = (\<lambda>tr arn. Got ()),
      onDescribeAutoScalingConfiguration = (\<lambda>tr arn. Got None),
      onCreateAutoScalingConfiguration = (\<lambda>tr name settings tags. Got None),
      onDescribeService = (\<lambda>tr arn. Got None),
      onUpdateService = (\<lambda>tr arn asc health instance source. Got ()),
      onTagResource = (\<lambda>tr arn tags. Got ()),
      onCreateService = (\<lambda>tr name source instance tags health asc public. Got None),
      onDeleteService = (\<lambda>tr arn. Got ()),
      onListServices = (\<lambda>tr token. Got (None, None)),
      onListTagsForResource = (\<lambda>tr arn. Got None),
      onGetEcrRepositoryArn = (\<lambda>tr r name. Got ''registry/web''),
      onGetConfig = (\<lambda>tr r d. Got []),
      onSetAppRunnerUrl = (\<lambda>tr url. Got ()),
      onNow = (\<lambda>tr. ''T1'')\<rparr>"

definition busyService :: Service where
  "busyService =
     \<lparr>ServiceArn = Some ''arn'', ServiceUrl = Some ''web.example'',
      Status = Some ''OPERATION_IN_PROGRESS'',
      AutoScalingConfigurationSummaryArn = None, HealthCheckConfiguration = None,
      InstanceCpu = None, InstanceMemory = None, ImageRepositoryImageIdentifier = None,
      ImageRuntimeEnvironmentSecrets = None, ImageRuntimeEnvironmentVariables = None\<rparr>"

text \<open>A service that stays in progress however often it is described.\<close>

definition busyWorld :: world where
  "busyWorld = quietWorld\<lparr>onDescribeService := (\<lambda>tr arn. Got (Some busyService))\<rparr>"

text \<open>Desired options, and a running service and a world that already match them.\<close>

definition exampleOptions :: EnsureAppRunnerOptions where
  "exampleOptions =
     \<lparr>region = ''eu'', deployment = ''main'', component = ''web'',
      ecrRepositoryName = ''web'', imageTag = ''v1'',
      autoScalingConfigurationName = ''web-scaling'',
      autoScaling = \<lparr>minSize = 1, maxSize = 5, maxConcurrency = 100\<rparr>,
      healthCheck = \<lparr>path = ''/health'', interval = 5, timeout = 2, healthyThreshold = 1,
                     unhealthyThreshold = 5\<rparr>,
      appRunnerServiceName = ''web'', appRunnerInstanceRoleArn = ''role'',
      appRunnerCpu = Some ''1024'', appRunnerMemory = Some ''2048'',
      ignoreConfigKeys = [''LEGACY_KEY'']\<rparr>"

definition convergedService :: Service where
  "convergedService =
     \<lparr>ServiceArn = Some ''arn'', ServiceUrl = Some ''web.example'',
      Status = Some ''RUNNING'',
      AutoScalingConfigurationSummaryArn = Some ''scaling/1'',
      HealthCheckConfiguration =
        Some [(''Protocol'', Str ''HTTP''), (''Path'', Str ''/health''), (''Interval'', Num 5),
              (''Timeout'', Num 2), (''HealthyThreshold'', Num 1),
              (''UnhealthyThreshold'', Num 5)],
      InstanceCpu = Some ''1024'', InstanceMemory = Some ''2048'',
      ImageRepositoryImageIdentifier = Some ''registry/web:v1'',
      ImageRuntimeEnvironmentSecrets = Some [(''A'', ''a''), (''LEGACY_KEY'', ''l'')],
      ImageRuntimeEnvironmentVariables =
        Some [(''LETSGO_IMAGE_TAG'', ''v1''), (''LETSGO_DEPLOYMENT'', ''main''),
              (''LETSGO_UPDATED_AT'', ''T0''), (''HOSTNAME'', ''0.0.0.0'')]\<rparr>"

definition convergedRevision :: bag where
  "convergedRevision = [(''MaxConcurrency'', Num 100), (''MaxSize'', Num 5), (''MinSize'', Num 1)]"

definition convergedWorld :: world where
  "convergedWorld =
     quietWorld
       \<lparr>onDescribeAutoScalingConfiguration := (\<lambda>tr arn. Got (Some convergedRevision)),
        onCreateAutoScalingConfiguration := (\<lambda>tr name settings tags. Got (Some ''scaling/2'')),
        onDescribeService := (\<lambda>tr arn. Got (Some convergedService)),
        onGetConfig := (\<lambda>tr r d. Got [(''A'', ''a'')])\<rparr>"

text \<open>The same world, except that a created revision comes back without its arn.\<close>

definition noArnWorld :: world where
  "noArnWorld =
     convergedWorld\<lparr>onCreateAutoScalingConfiguration := (\<lambda>tr name settings tags. Got None)\<rparr>"

definition widerOptions :: EnsureAppRunnerOptions where
  "widerOptions =
     exampleOptions\<lparr>autoScaling := \<lparr>minSize = 1, maxSize = 10, maxConcurrency = 100\<rparr>\<rparr>"

text \<open>
  A newer image is wanted, and the provider carries the update out: the service comes back
  running the new image, its variables as they were.
\<close>

definition newerOptions :: EnsureAppRunnerOptions where
  "newerOptions = exampleOptions\<lparr>imageTag := ''v2''\<rparr>"

definition updatedService :: Service where
  "updatedService =
     convergedService\<lparr>ImageRepositoryImageIdentifier := Some ''registry/web:v2''\<rparr>"

definition updatedWorld :: world where
  "updatedWorld = convergedWorld\<lparr>onDescribeService := (\<lambda>tr arn. Got (Some updatedService))\<rparr>"



text \<open>The calls that only the update flow makes.\<close>

definition isUpdateFlowCall :: "event \<Rightarrow> bool" where
  "isUpdateFlowCall e =
     (case e of
        DescribeAutoScalingConfiguration arn r \<Rightarrow> True
      | UpdateService arn asc health instance source r \<Rightarrow> True
      | TagResource arn tags r \<Rightarrow> True
      | _ \<Rightarrow> False)"

text \<open>
  Worlds for discovery: one in which the only service of the identity failed to be created,
  and one with two services of the identity on two pages, next to a service that lacks the
  component tag.
\<close>

definition letsGoTags :: "Tag list" where
  "letsGoTags =
     [\<lparr>Key = Some ''LetsGoDeployment'', Value = Some ''main''\<rparr>,
      \<lparr>Key = Some ''LetsGoComponent'', Value = Some ''web''\<rparr>]"

definition failedSummary :: ServiceSummary where
  "failedSummary =
     \<lparr>ServiceArn = Some ''arn'', ServiceUrl = Some ''web.example'',
      Status = Some ''CREATE_FAILED''\<rparr>"

definition createdService :: Service where
  "createdService = convergedService\<lparr>ServiceArn := Some ''arn/new''\<rparr>"

text \<open>
  In the first of them the accepted delete takes a second: the service is still in progress
  at the first describe and gone at the next.
\<close>

definition failedWorld :: world where
  "failedWorld =
     convergedWorld
       \<lparr>onListServices := (\<lambda>tr token. Got (Some [failedSummary], None)),
        onListTagsForResource := (\<lambda>tr arn. Got (Some letsGoTags)),
        onCreateService :=
          (\<lambda>tr name source instance tags health asc public. Got (Some createdService)),
        onDescribeService :=
          (\<lambda>tr arn. if arn = ''arn''
                     then (if 1 \<le> slept tr then Threw ''ResourceNotFoundException''
                           else Got (Some busyService))
                     else Got (Some createdService))\<rparr>"

definition twinSummary :: ServiceSummary where
  "twinSummary =
     \<lparr>ServiceArn = Some ''arn/twin'', ServiceUrl = Some ''twin.example'',
      Status = Some ''RUNNING''\<rparr>"

definition strangerSummary :: ServiceSummary where
  "strangerSummary =
     \<lparr>ServiceArn = Some ''arn/stranger'', ServiceUrl = Some ''stranger.example'',
      Status = Some ''RUNNING''\<rparr>"

definition crowdedWorld :: world where
  "crowdedWorld =
     convergedWorld
       \<lparr>onListServices :=
          (\<lambda>tr token.
             if token = None then Got (Some [failedSummary, strangerSummary], Some ''next'')
             else Got (Some [twinSummary], None)),
        onListTagsForResource :=
          (\<lambda>tr arn.
             if arn = ''arn/stranger''
             then Got (Some [\<lparr>Key = Some ''LetsGoDeployment'', Value = Some ''main''\<rparr>])
             else Got (Some letsGoTags))\<rparr>"

definition crowdedTrace :: "event list" where
  "crowdedTrace =
     [ListServices None (Got (Some [failedSummary, strangerSummary], Some ''next'')),
      ListTagsForResource ''arn'' (Got (Some letsGoTags)),
      ListTagsForResource ''arn/stranger''
        (Got (Some [\<lparr>Key = Some ''LetsGoDeployment'', Value = Some ''main''\<rparr>])),
      ListServices (Some ''next'') (Got (Some [twinSummary], None)),
      ListTagsForResource ''arn/twin'' (Got (Some letsGoTags))]"

definition failedTrace :: "event list" where
  "failedTrace =
     [ListServices None (Got (Some [failedSummary], None)),
      ListTagsForResource ''arn'' (Got (Some letsGoTags)),
      DeleteService ''arn'' (Got ()),
      DescribeService ''arn'' (Got (Some busyService)),
      Sleep 1,
      DescribeService ''arn'' (Threw ''ResourceNotFoundException''),
      GetEcrRepositoryArn ''eu'' ''web'' (Got ''registry/web''),
      ListAutoScalingConfigurations ''web-scaling'' None (Got (None, None)),
      CreateAutoScalingConfiguration ''web-scaling'' (getAutoScalingSettings exampleOptions)
        (serviceTags failedWorld exampleOptions) (Got (Some ''scaling/2'')),
      GetConfig ''eu'' ''main'' (Got [(''A'', ''a'')]),
      Now ''T1'',
      CreateService ''web''
        (sourceConfigurationOf exampleOptions ''registry/web''
           (Some \<lparr>RuntimeEnvironmentSecrets = [(''A'', ''a'')],
                   RuntimeEnvironmentVariables =
                     runtimeEnvironmentVariables exampleOptions ''T1''\<rparr>))
        (instanceConfigurationOf exampleOptions) (serviceTags failedWorld exampleOptions)
        (getHealthCheckSettings exampleOptions) (Some ''scaling/2'') True
        (Got (Some createdService)),
      SetAppRunnerUrl ''https://web.example'' (Got ()),
      DescribeService ''arn/new'' (Got (Some createdService))]"

section \<open>The waiter ends, and how\<close>

lemma nextDelay_pos: "1 \<le> delay \<Longrightarrow> 1 \<le> nextDelay clock delay"
  by (simp add: nextDelay_def)

lemma slept_append [simp]: "slept (xs @ ys) = slept xs + slept ys"
  by (induction xs) (auto split: event.split)

lemma followsSchedule_append:
  "followsSchedule sched e (xs @ ys) =
     (followsSchedule sched e xs \<and> followsSchedule sched (e + slept xs) ys)"
  by (induction xs arbitrary: e) (auto split: event.split simp: add.assoc)

lemma nextDelay_schedule: "(clock \<le> 5 \<longrightarrow> delay = 1) \<Longrightarrow> nextDelay clock delay = delayAfter clock"
  by (auto simp: nextDelay_def delayAfter_def)

lemma nextDelay_inv:
  "(clock \<le> 5 \<longrightarrow> delay = 1) \<Longrightarrow>
   (clock + nextDelay clock delay \<le> 5 \<longrightarrow> nextDelay clock delay = 1)"
  by (auto simp: nextDelay_def)

lemma waitLoop_shape:
  "1 \<le> delay \<Longrightarrow>
   \<exists>out mid rp.
     waitLoop w arn maxWait isDeleting clock delay tr =
       Some (out, tr @ mid @ [DescribeService arn rp]) \<and>
     ((clock \<le> 5 \<longrightarrow> delay = 1) \<longrightarrow> followsSchedule delayAfter clock mid) \<and>
     (\<forall>s. rp = Got (Some s) \<and> Status s = Some ''OPERATION_IN_PROGRESS'' \<longrightarrow>
        maxWait \<le> clock + slept mid \<and> out = Return (if isDeleting then Some s else None)) \<and>
     (\<not> isDeleting \<longrightarrow> (\<forall>s. out = Return (Some s) \<longrightarrow>
        rp = Got (Some s) \<and> Status s = Some ''RUNNING''))"
proof (induction "nat (maxWait - clock)" arbitrary: clock delay tr rule: less_induct)
  case less
  define r0 where "r0 = onDescribeService w tr arn"
  define d where "d = nextDelay clock delay"
  define tr1 where "tr1 = tr @ [DescribeService arn r0]"
  have d1: "1 \<le> d"
    unfolding d_def by (rule nextDelay_pos [OF less.prems])
  note body = waitLoop.simps [of w arn maxWait isDeleting clock delay tr,
      unfolded Let_def, folded r0_def d_def]
  let ?run = "\<lambda>clock delay tr out mid rp.
     waitLoop w arn maxWait isDeleting clock delay tr =
       Some (out, tr @ mid @ [DescribeService arn rp])"
  let ?sched = "\<lambda>clock delay mid.
     (clock \<le> 5 \<longrightarrow> delay = 1) \<longrightarrow> followsSchedule delayAfter clock mid"
  let ?tmo = "\<lambda>clock out mid rp.
     \<forall>s. rp = Got (Some s) \<and> Status s = Some ''OPERATION_IN_PROGRESS'' \<longrightarrow>
        maxWait \<le> clock + slept mid \<and> out = Return (if isDeleting then Some s else None)"
  let ?ok = "\<lambda>out rp.
     \<not> isDeleting \<longrightarrow> (\<forall>s. out = Return (Some s) \<longrightarrow>
        rp = Got (Some s) \<and> Status s = Some ''RUNNING'')"
  have stop: ?case
    if run: "?run clock delay tr out [] r0" and tmo: "?tmo clock out [] r0" and ok: "?ok out r0"
    for out
  proof -
    have "?sched clock delay []" by simp
    with run have "?run clock delay tr out [] r0 \<and> ?sched clock delay [] \<and>
        ?tmo clock out [] r0 \<and> ?ok out r0"
      using tmo ok by (intro conjI)
    then show ?thesis by (intro exI)
  qed
  show ?case
  proof (cases r0)
    case (Threw name)
    show ?thesis
    proof (rule stop)
      show "?run clock delay tr (if name = ''ResourceNotFoundException'' \<and> isDeleting
                 then Return None else Throw name) [] r0"
        using Threw by (simp add: body)
    qed (simp_all add: Threw)
  next
    case (Got result)
    show ?thesis
    proof (cases "statusOf result = Some ''OPERATION_IN_PROGRESS''")
      case False
      show ?thesis
      proof (rule stop)
        show "?run clock delay tr
                (if isDeleting \<and> statusOf result = Some ''DELETED'' then Return None
                 else if isDeleting then Exit UnexpectedStatusDeleting
                 else if statusOf result = Some ''RUNNING'' then Return result
                 else Exit UnexpectedStatusCreating) [] r0"
          using False Got by (simp add: body)
      qed (use False Got in \<open>auto simp: statusOf_def\<close>)
    next
      case True
      note busy = this
      show ?thesis
      proof (cases "maxWait \<le> clock")
        case True
        show ?thesis
        proof (rule stop)
          show "?run clock delay tr (Return (if isDeleting then result else None)) [] r0"
            using True busy Got by (simp add: body)
        qed (use True busy Got in \<open>auto simp: statusOf_def\<close>)
      next
        case False
        then have "nat (maxWait - (clock + d)) < nat (maxWait - clock)"
          using d1 by linarith
        from less.hyps [OF this d1, of "tr1 @ [Sleep d]"]
        obtain out where "\<exists>mid rp. ?run (clock + d) d (tr1 @ [Sleep d]) out mid rp \<and>
          ?sched (clock + d) d mid \<and> ?tmo (clock + d) out mid rp \<and> ?ok out rp" ..
        then obtain mid where "\<exists>rp. ?run (clock + d) d (tr1 @ [Sleep d]) out mid rp \<and>
          ?sched (clock + d) d mid \<and> ?tmo (clock + d) out mid rp \<and> ?ok out rp" ..
        then obtain rp where all: "?run (clock + d) d (tr1 @ [Sleep d]) out mid rp \<and>
          ?sched (clock + d) d mid \<and> ?tmo (clock + d) out mid rp \<and> ?ok out rp" ..
        note r = all [THEN conjunct1]
        note sch = all [THEN conjunct2, THEN conjunct1]
        note tmo = all [THEN conjunct2, THEN conjunct2, THEN conjunct1]
        note ok = all [THEN conjunct2, THEN conjunct2, THEN conjunct2]
        let ?mid = "DescribeService arn r0 # Sleep d # mid"
        have c1: "?run clock delay tr out ?mid rp"
          using False busy Got r by (simp add: body tr1_def)
        have c2: "?sched clock delay ?mid"
        proof
          assume inv: "clock \<le> 5 \<longrightarrow> delay = 1"
          have "d = delayAfter clock"
            unfolding d_def by (rule nextDelay_schedule [OF inv])
          moreover have "followsSchedule delayAfter (clock + d) mid"
            using sch nextDelay_inv [OF inv] by (simp add: d_def)
          ultimately show "followsSchedule delayAfter clock ?mid" by simp
        qed
        have c3: "?tmo clock out ?mid rp"
        proof (intro allI impI)
          fix s assume "rp = Got (Some s) \<and> Status s = Some ''OPERATION_IN_PROGRESS''"
          from tmo [rule_format, OF this]
          show "maxWait \<le> clock + slept ?mid \<and>
                out = Return (if isDeleting then Some s else None)"
            by (simp add: add.assoc)
        qed
        from c1 c2 c3 ok have "?run clock delay tr out ?mid rp \<and> ?sched clock delay ?mid \<and>
            ?tmo clock out ?mid rp \<and> ?ok out rp"
          by (intro conjI)
        then show ?thesis by (intro exI)
      qed
    qed
  qed
qed


lemma waitFor_shape:
  "\<exists>out mid rp.
     waitForAppRunnerService w arn maxWait isDeleting tr =
       Some (out, tr @ mid @ [DescribeService arn rp]) \<and>
     followsSchedule delayAfter 0 mid \<and>
     (\<forall>s. rp = Got (Some s) \<and> Status s = Some ''OPERATION_IN_PROGRESS'' \<longrightarrow>
        maxWait \<le> slept mid \<and> out = Return (if isDeleting then Some s else None)) \<and>
     (\<not> isDeleting \<longrightarrow> (\<forall>s. out = Return (Some s) \<longrightarrow>
        rp = Got (Some s) \<and> Status s = Some ''RUNNING''))"
  using waitLoop_shape [of 1 w arn maxWait isDeleting 0 tr]
  by (simp add: waitForAppRunnerService_def)

text \<open>
  The events of the waiter are a paced wait: every describe that is followed by another
  showed the service in progress, and exactly one sleep of the scheduled length lies
  between the two. A wait for deletion returns absent exactly when the last describe showed
  the service gone.
\<close>

lemma delayAfter_pos: "1 \<le> delayAfter clock"
  by (simp add: delayAfter_def)

lemma waitLoop_polled:
  "(clock \<le> 5 \<longrightarrow> delay = 1) \<Longrightarrow>
   \<exists>out mid rp.
     waitLoop w arn maxWait isDeleting clock delay tr =
       Some (out, tr @ mid @ [DescribeService arn rp]) \<and>
     polled arn delayAfter clock (mid @ [DescribeService arn rp]) \<and>
     (isDeleting \<longrightarrow> (out = Return None) = serviceGone rp) \<and>
     (inProgress rp \<longrightarrow> maxWait \<le> clock + slept mid \<and>
        (\<exists>s. rp = Got (Some s) \<and> out = Return (if isDeleting then Some s else None)))"
proof (induction "nat (maxWait - clock)" arbitrary: clock delay tr rule: less_induct)
  case less
  define r0 where "r0 = onDescribeService w tr arn"
  define d where "d = nextDelay clock delay"
  define tr1 where "tr1 = tr @ [DescribeService arn r0]"
  have d: "d = delayAfter clock"
    unfolding d_def by (rule nextDelay_schedule [OF less.prems])
  have d1: "1 \<le> d" unfolding d by (rule delayAfter_pos)
  have inv: "clock + d \<le> 5 \<longrightarrow> d = 1"
    unfolding d_def by (rule nextDelay_inv [OF less.prems])
  note body = waitLoop.simps [of w arn maxWait isDeleting clock delay tr,
      unfolded Let_def, folded r0_def d_def]
  let ?goal = "\<lambda>out mid rp.
     waitLoop w arn maxWait isDeleting clock delay tr =
       Some (out, tr @ mid @ [DescribeService arn rp]) \<and>
     polled arn delayAfter clock (mid @ [DescribeService arn rp]) \<and>
     (isDeleting \<longrightarrow> (out = Return None) = serviceGone rp) \<and>
     (inProgress rp \<longrightarrow> maxWait \<le> clock + slept mid \<and>
        (\<exists>s. rp = Got (Some s) \<and> out = Return (if isDeleting then Some s else None)))"
  show ?case
  proof (cases r0)
    case (Threw name)
    have "?goal (if name = ''ResourceNotFoundException'' \<and> isDeleting
                 then Return None else Throw name) [] r0"
      using Threw by (simp add: body serviceGone_def inProgress_def)
    then show ?thesis by (intro exI)
  next
    case (Got result)
    show ?thesis
    proof (cases "statusOf result = Some ''OPERATION_IN_PROGRESS''")
      case False
      have "?goal (if isDeleting \<and> statusOf result = Some ''DELETED'' then Return None
                 else if isDeleting then Exit UnexpectedStatusDeleting
                 else if statusOf result = Some ''RUNNING'' then Return result
                 else Exit UnexpectedStatusCreating) [] r0"
        using False Got by (simp add: body serviceGone_def inProgress_def)
      then show ?thesis by (intro exI)
    next
      case True
      note busy = this
      show ?thesis
      proof (cases "maxWait \<le> clock")
        case True
        obtain s where "result = Some s" using busy by (cases result) (auto simp: statusOf_def)
        then have "?goal (Return (if isDeleting then result else None)) [] r0"
          using True busy Got by (simp add: body serviceGone_def inProgress_def)
        then show ?thesis by (intro exI)
      next
        case False
        then have "nat (maxWait - (clock + d)) < nat (maxWait - clock)"
          using d1 by linarith
        from less.hyps [OF this inv, of "tr1 @ [Sleep d]"]
        obtain out mid rp where
          r: "waitLoop w arn maxWait isDeleting (clock + d) d (tr1 @ [Sleep d]) =
                Some (out, (tr1 @ [Sleep d]) @ mid @ [DescribeService arn rp])"
          and p: "polled arn delayAfter (clock + d) (mid @ [DescribeService arn rp])"
          and g: "isDeleting \<longrightarrow> (out = Return None) = serviceGone rp"
          and t: "inProgress rp \<longrightarrow> maxWait \<le> clock + d + slept mid \<and>
            (\<exists>s. rp = Got (Some s) \<and> out = Return (if isDeleting then Some s else None))"
          by (elim exE conjE)
        let ?mid = "DescribeService arn r0 # Sleep d # mid"
        have c1: "waitLoop w arn maxWait isDeleting clock delay tr =
            Some (out, tr @ ?mid @ [DescribeService arn rp])"
          using False busy Got r by (simp add: body tr1_def)
        have c2: "polled arn delayAfter clock (?mid @ [DescribeService arn rp])"
          using p busy Got d by (simp add: inProgress_def)
        have c3: "inProgress rp \<longrightarrow> maxWait \<le> clock + slept ?mid \<and>
            (\<exists>s. rp = Got (Some s) \<and> out = Return (if isDeleting then Some s else None))"
        proof
          assume "inProgress rp"
          with t have "maxWait \<le> clock + d + slept mid"
            "\<exists>s. rp = Got (Some s) \<and> out = Return (if isDeleting then Some s else None)"
            by blast+
          then show "maxWait \<le> clock + slept ?mid \<and>
            (\<exists>s. rp = Got (Some s) \<and> out = Return (if isDeleting then Some s else None))"
            by (simp add: add.assoc)
        qed
        from c1 c2 g c3 have "?goal out ?mid rp" by (intro conjI)
        then show ?thesis by (intro exI)
      qed
    qed
  qed
qed


lemma waitFor_polled:
  "\<exists>out mid rp.
     waitForAppRunnerService w arn maxWait isDeleting tr =
       Some (out, tr @ mid @ [DescribeService arn rp]) \<and>
     polled arn delayAfter 0 (mid @ [DescribeService arn rp]) \<and>
     (isDeleting \<longrightarrow> (out = Return None) = serviceGone rp) \<and>
     (inProgress rp \<longrightarrow> maxWait \<le> slept mid \<and>
        (\<exists>s. rp = Got (Some s) \<and> out = Return (if isDeleting then Some s else None)))"
  using waitLoop_polled [of 0 1 w arn maxWait isDeleting tr]
  by (simp add: waitForAppRunnerService_def)

lemma busy_run_2:
  "waitForAppRunnerService busyWorld ''arn'' 2 isDeleting [] =
     Some (Return (if isDeleting then Some busyService else None),
       [DescribeService ''arn'' (Got (Some busyService)), Sleep 1,
        DescribeService ''arn'' (Got (Some busyService)), Sleep 1,
        DescribeService ''arn'' (Got (Some busyService))])"
  by (simp add: waitForAppRunnerService_def waitLoop.simps Let_def busyWorld_def quietWorld_def
        busyService_def statusOf_def nextDelay_def)

lemma busy_run_6:
  "waitForAppRunnerService busyWorld ''arn'' 6 False [] =
     Some (Return None,
       [DescribeService ''arn'' (Got (Some busyService)), Sleep 1,
        DescribeService ''arn'' (Got (Some busyService)), Sleep 1,
        DescribeService ''arn'' (Got (Some busyService)), Sleep 1,
        DescribeService ''arn'' (Got (Some busyService)), Sleep 1,
        DescribeService ''arn'' (Got (Some busyService)), Sleep 1,
        DescribeService ''arn'' (Got (Some busyService)), Sleep 1,
        DescribeService ''arn'' (Got (Some busyService))])"
  by (simp add: waitForAppRunnerService_def waitLoop.simps Let_def busyWorld_def quietWorld_def
        busyService_def statusOf_def nextDelay_def)

lemma running_run:
  "waitForAppRunnerService convergedWorld ''arn'' 2 False [] =
     Some (Return (Some convergedService),
       [DescribeService ''arn'' (Got (Some convergedService))])"
  by (simp add: waitForAppRunnerService_def waitLoop.simps Let_def quietWorld_def convergedWorld_def
        convergedService_def statusOf_def)

section \<open>What the reclaim leaves in the trace\<close>

lemma revisionPages_append [simp]:
  "revisionPages (xs @ ys) = revisionPages xs @ revisionPages ys"
  by (induction xs) simp_all

lemma deletedRevisions_append [simp]:
  "deletedRevisions (xs @ ys) = deletedRevisions xs @ deletedRevisions ys"
  by (induction xs) simp_all

lemma listed_append [simp]: "listed (xs @ ys) = listed xs @ listed ys"
  by (simp add: listed_def)

lemma deleteUnusedInPage_events:
  "\<exists>evs. snd (deleteUnusedInPage w revisions tr) = tr @ evs \<and>
     list_all isReclaimCall evs \<and> revisionPages evs = [] \<and>
     (\<forall>x. fst (deleteUnusedInPage w revisions tr) \<noteq> Exit x) \<and>
     (fst (deleteUnusedInPage w revisions tr) = Return () \<longrightarrow>
        deletedRevisions evs =
          map AutoScalingConfigurationArn
            (filter (\<lambda>revision. \<not> truthyB (HasAssociatedService revision) \<and>
                       RevisionStatus revision = Some ''active'') revisions))"
proof (induction revisions arbitrary: tr)
  case Nil
  show ?case by simp
next
  case (Cons revision rest)
  show ?case
  proof (cases "\<not> truthyB (HasAssociatedService revision) \<and>
                RevisionStatus revision = Some ''active''")
    case False
    with Cons [of tr] show ?thesis by auto
  next
    case True
    define r where "r = onDeleteAutoScalingConfiguration w tr (AutoScalingConfigurationArn revision)"
    define e where "e = DeleteAutoScalingConfiguration (AutoScalingConfigurationArn revision) r"
    have re: "isReclaimCall e" "revisionPages [e] = []"
      by (simp_all add: e_def isReclaimCall_def)
    show ?thesis
    proof (cases r)
      case (Threw name)
      have "deleteUnusedInPage w (revision # rest) tr = (Throw name, tr @ [e])"
        using True Threw by (simp add: Let_def r_def [symmetric] e_def)
      then show ?thesis
        using re by (intro exI [of _ "[e]"]) (simp del: deleteUnusedInPage.simps)
    next
      case (Got u)
      have eq: "deleteUnusedInPage w (revision # rest) tr = deleteUnusedInPage w rest (tr @ [e])"
        using True Got by (simp add: Let_def r_def [symmetric] e_def)
      from Cons [of "tr @ [e]"] obtain evs where
        evs: "snd (deleteUnusedInPage w rest (tr @ [e])) = (tr @ [e]) @ evs"
          "list_all isReclaimCall evs" "revisionPages evs = []"
          "\<forall>x. fst (deleteUnusedInPage w rest (tr @ [e])) \<noteq> Exit x"
          "fst (deleteUnusedInPage w rest (tr @ [e])) = Return () \<longrightarrow>
             deletedRevisions evs =
               map AutoScalingConfigurationArn
                 (filter (\<lambda>revision. \<not> truthyB (HasAssociatedService revision) \<and>
                       RevisionStatus revision = Some ''active'') rest)"
        by (elim exE conjE)
      have de: "deletedRevisions [e] = [AutoScalingConfigurationArn revision]"
        by (simp add: e_def Got)
      show ?thesis
        using evs True re de
        by (intro exI [of _ "e # evs"]) (simp add: eq del: deleteUnusedInPage.simps)
    qed
  qed
qed

lemma deleteUnusedLoop_events:
  assumes run: "deleteUnusedLoop w name token tr = Some r"
  shows "\<exists>evs. snd r = tr @ evs \<and> list_all isReclaimCall evs \<and>
     (fst r = Return () \<longrightarrow>
        drained token (revisionPages evs) \<and>
        deletedRevisions evs =
          map AutoScalingConfigurationArn
            (filter (\<lambda>revision. \<not> truthyB (HasAssociatedService revision) \<and>
                       RevisionStatus revision = Some ''active'')
               (listed (revisionPages evs))))"
proof (rule deleteUnusedLoop.raw_induct
    [where P = "\<lambda>w name token tr r. \<exists>evs. snd r = tr @ evs \<and> list_all isReclaimCall evs \<and>
     (fst r = Return () \<longrightarrow>
        drained token (revisionPages evs) \<and>
        deletedRevisions evs =
          map AutoScalingConfigurationArn
            (filter (\<lambda>revision. \<not> truthyB (HasAssociatedService revision) \<and>
                       RevisionStatus revision = Some ''active'')
               (listed (revisionPages evs))))", OF _ run])
  fix loop :: "world \<Rightarrow> string \<Rightarrow> string option \<Rightarrow> event list \<Rightarrow>
      (unit outcome \<times> event list) option"
    and w :: world and name token tr and r :: "unit outcome \<times> event list"
  assume IH: "\<And>w name token tr r. loop w name token tr = Some r \<Longrightarrow>
     \<exists>evs. snd r = tr @ evs \<and> list_all isReclaimCall evs \<and>
     (fst r = Return () \<longrightarrow>
        drained token (revisionPages evs) \<and>
        deletedRevisions evs =
          map AutoScalingConfigurationArn
            (filter (\<lambda>revision. \<not> truthyB (HasAssociatedService revision) \<and>
                       RevisionStatus revision = Some ''active'')
               (listed (revisionPages evs))))"
  define r0 where "r0 = onListAutoScalingConfigurations w tr name token"
  define e where "e = ListAutoScalingConfigurations name token r0"
  assume "(let r = onListAutoScalingConfigurations w tr name token;
          tr1 = tr @ [ListAutoScalingConfigurations name token r]
      in case r of
           Threw e \<Rightarrow> Some (Throw e, tr1)
         | Got listResult \<Rightarrow>
             (case deleteUnusedInPage w
                     (case fst listResult of None \<Rightarrow> [] | Some revisions \<Rightarrow> revisions) tr1 of
                (Return u, tr2) \<Rightarrow>
                  if \<not> truthy (snd listResult) then Some (Return (), tr2)
                  else loop w name (snd listResult) tr2
              | (Exit x, tr2) \<Rightarrow> Some (Exit x, tr2)
              | (Throw e, tr2) \<Rightarrow> Some (Throw e, tr2))) = Some r"
  then have body: "(case r0 of
           Threw err \<Rightarrow> Some (Throw err, tr @ [e])
         | Got listResult \<Rightarrow>
             (case deleteUnusedInPage w
                     (case fst listResult of None \<Rightarrow> [] | Some revisions \<Rightarrow> revisions)
                     (tr @ [e]) of
                (Return u, tr2) \<Rightarrow>
                  if \<not> truthy (snd listResult) then Some (Return (), tr2)
                  else loop w name (snd listResult) tr2
              | (Exit x, tr2) \<Rightarrow> Some (Exit x, tr2)
              | (Throw err, tr2) \<Rightarrow> Some (Throw err, tr2))) = Some r"
    unfolding Let_def r0_def e_def .
  show "\<exists>evs. snd r = tr @ evs \<and> list_all isReclaimCall evs \<and>
     (fst r = Return () \<longrightarrow>
        drained token (revisionPages evs) \<and>
        deletedRevisions evs =
          map AutoScalingConfigurationArn
            (filter (\<lambda>revision. \<not> truthyB (HasAssociatedService revision) \<and>
                       RevisionStatus revision = Some ''active'')
               (listed (revisionPages evs))))"
  proof (cases r0)
    case (Threw name)
    with body have "r = (Throw name, tr @ [e])" by simp
    then show ?thesis
      by (intro exI [of _ "[e]"]) (simp add: e_def isReclaimCall_def)
  next
    case (Got listResult)
    define revisions where
      "revisions = (case fst listResult of None \<Rightarrow> [] | Some revisions \<Rightarrow> revisions)"
    define page where "page = deleteUnusedInPage w revisions (tr @ [e])"
    from deleteUnusedInPage_events [of w revisions "tr @ [e]"] obtain evs where
      evs: "snd page = (tr @ [e]) @ evs" "list_all isReclaimCall evs" "revisionPages evs = []"
        "\<forall>x. fst page \<noteq> Exit x"
        "fst page = Return () \<longrightarrow>
          deletedRevisions evs =
            map AutoScalingConfigurationArn
              (filter (\<lambda>revision. \<not> truthyB (HasAssociatedService revision) \<and>
                       RevisionStatus revision = Some ''active'') revisions)"
      unfolding page_def by (elim exE conjE)
    have pe: "revisionPages [e] = [(token, revisions, snd listResult)]"
      "deletedRevisions [e] = []" "isReclaimCall e"
      by (simp_all add: e_def Got revisions_def isReclaimCall_def)
    from body Got have body': "(case page of
                (Return u, tr2) \<Rightarrow>
                  if \<not> truthy (snd listResult) then Some (Return (), tr2)
                  else loop w name (snd listResult) tr2
              | (Exit x, tr2) \<Rightarrow> Some (Exit x, tr2)
              | (Throw err, tr2) \<Rightarrow> Some (Throw err, tr2)) = Some r"
      by (simp add: page_def revisions_def)
    show ?thesis
    proof (cases "fst page")
      case (Exit x)
      with evs show ?thesis by simp
    next
      case (Throw name)
      with body' have "r = (Throw name, snd page)" by (cases page) auto
      with evs pe show ?thesis
        by (intro exI [of _ "e # evs"]) simp
    next
      case (Return u)
      show ?thesis
      proof (cases "truthy (snd listResult)")
        case False
        with body' Return have "r = (Return (), snd page)" by (cases page) auto
        with evs pe Return False show ?thesis
          by (intro exI [of _ "e # evs"]) (simp add: listed_def)
      next
        case True
        with body' Return have "loop w name (snd listResult) (snd page) = Some r"
          by (cases page) auto
        from IH [OF this] obtain evs' where
          evs': "snd r = snd page @ evs'" "list_all isReclaimCall evs'"
            "fst r = Return () \<longrightarrow>
               drained (snd listResult) (revisionPages evs') \<and>
               deletedRevisions evs' =
                 map AutoScalingConfigurationArn
                   (filter (\<lambda>revision. \<not> truthyB (HasAssociatedService revision) \<and>
                       RevisionStatus revision = Some ''active'')
                      (listed (revisionPages evs')))"
          by (elim exE conjE)
        from evs evs' pe Return True show ?thesis
          by (intro exI [of _ "e # evs @ evs'"]) (simp add: listed_def)
      qed
    qed
  qed
qed

section \<open>Sequencing and the shape of traces\<close>

lemma andThen_cases:
  assumes "andThen m f = Some r"
  obtains (continue) a tr1 where "m = Some (Return a, tr1)" "f a tr1 = Some r"
    | (exit) x where "m = Some (Exit x, snd r)" "fst r = Exit x"
    | (throw) name where "m = Some (Throw name, snd r)" "fst r = Throw name"
proof (cases m)
  case None
  with assms show ?thesis by (simp add: andThen_def)
next
  case (Some p)
  obtain out tr1 where p: "p = (out, tr1)" by (cases p)
  show ?thesis
  proof (cases out)
    case (Return a)
    with assms Some p continue show ?thesis by (simp add: andThen_def)
  next
    case (Exit x)
    with assms Some p exit [of x] show ?thesis by (auto simp: andThen_def)
  next
    case (Throw name)
    with assms Some p throw [of name] show ?thesis by (auto simp: andThen_def)
  qed
qed

lemma andThen_Return [simp]: "andThen (Some (Return a, tr)) f = f a tr"
  by (simp add: andThen_def)

lemma andThen_Exit [simp]: "andThen (Some (Exit x, tr)) f = Some (Exit x, tr)"
  by (simp add: andThen_def)

lemma andThen_Throw [simp]: "andThen (Some (Throw name, tr)) f = Some (Throw name, tr)"
  by (simp add: andThen_def)

lemma andThen_assoc:
  "andThen (andThen m f) g = andThen m (\<lambda>a tr. andThen (f a tr) g)"
  by (simp add: andThen_def split: option.split prod.split outcome.split)

lemma emits_weaken: "emits Q p \<Longrightarrow> (\<And>e. Q e \<Longrightarrow> Q' e) \<Longrightarrow> emits Q' p"
  unfolding emits_def by (meson list.pred_mono_strong)

lemma emits_send: "(\<And>r. Q (ev r)) \<Longrightarrow> emits Q (send ask ev)"
  by (simp add: emits_def send_def Let_def)

lemma emits_done: "emits Q (\<lambda>tr. Some (x, tr))"
  by (simp add: emits_def)

lemma emits_andThen:
  assumes p: "emits Q p" and f: "\<And>tr0 a. emits Q (f tr0 a)"
  shows "emits Q (\<lambda>tr. andThen (p tr) (f tr))"
  unfolding emits_def
proof (intro allI impI)
  fix tr r
  assume "andThen (p tr) (f tr) = Some r"
  then show "\<exists>evs. snd r = tr @ evs \<and> list_all Q evs"
  proof (cases rule: andThen_cases)
    case (continue a tr1)
    from p continue(1) obtain evs1 where 1: "tr1 = tr @ evs1" "list_all Q evs1"
      unfolding emits_def by fastforce
    from f [of tr a] continue(2) obtain evs2 where 2: "snd r = tr1 @ evs2" "list_all Q evs2"
      unfolding emits_def by fastforce
    from 1 2 show ?thesis by (intro exI [of _ "evs1 @ evs2"]) simp
  next
    case (exit x)
    with p show ?thesis unfolding emits_def by fastforce
  next
    case (throw name)
    with p show ?thesis unfolding emits_def by fastforce
  qed
qed

lemma emits_after:
  assumes "emits Q p" and "\<And>tr. list_all Q (es tr)"
  shows "emits Q (\<lambda>tr. p (tr @ es tr))"
  unfolding emits_def
proof (intro allI impI)
  fix tr r
  assume "p (tr @ es tr) = Some r"
  with assms(1) obtain evs where "snd r = (tr @ es tr) @ evs" "list_all Q evs"
    unfolding emits_def by blast
  with assms(2) [of tr] show "\<exists>evs. snd r = tr @ evs \<and> list_all Q evs"
    by (intro exI [of _ "es tr @ evs"]) simp
qed

lemma emits_if: "emits Q p \<Longrightarrow> emits Q q \<Longrightarrow> emits Q (\<lambda>tr. if c tr then p tr else q tr)"
  by (simp add: emits_def)

lemma emits_reclaim:
  "(\<And>e. isReclaimCall e \<Longrightarrow> Q e) \<Longrightarrow>
   emits Q (deleteUnusedAutoScalingConfigurations w name)"
  unfolding emits_def deleteUnusedAutoScalingConfigurations_def
  by (meson deleteUnusedLoop_events list.pred_mono_strong)

lemma emits_wait:
  "emits (\<lambda>e. True) (waitForAppRunnerService w arn maxWait isDeleting)"
  unfolding emits_def
proof (intro allI impI)
  fix tr r
  assume a: "waitForAppRunnerService w arn maxWait isDeleting tr = Some r"
  from waitFor_shape [of w arn maxWait isDeleting tr]
  obtain out mid rp where
    "waitForAppRunnerService w arn maxWait isDeleting tr =
       Some (out, tr @ mid @ [DescribeService arn rp])"
    by (elim exE conjE)
  with a show "\<exists>evs. snd r = tr @ evs \<and> list_all (\<lambda>e. True) evs"
    by (auto simp: list_all_iff)
qed


lemma emits_send_after:
  "(\<And>tr r. Q (ev tr r)) \<Longrightarrow> (\<And>tr. list_all Q (es tr)) \<Longrightarrow>
   emits Q (\<lambda>tr. send (ask tr) (ev tr) (tr @ es tr))"
  by (simp add: emits_def send_def Let_def)

lemma emits_case_option:
  "emits Q p \<Longrightarrow> (\<And>s. emits Q (q s)) \<Longrightarrow>
   emits Q (\<lambda>tr. case x of None \<Rightarrow> p tr | Some s \<Rightarrow> q s tr)"
  by (simp add: emits_def split: option.split)

lemmas emits_rules = emits_andThen emits_send emits_send_after emits_done emits_if
  emits_reclaim emits_case_option emits_wait

lemma emits_computeUpdatePlan:
  "emits isPlanningCall (computeUpdatePlan w options existingService)"
  unfolding computeUpdatePlan_def [abs_def]
  by (intro emits_rules) (simp_all add: isPlanningCall_def isReclaimCall_def split: event.splits)



lemma emits_createAppRunnerService:
  "emits (\<lambda>e. True) (createAppRunnerService w options)"
  unfolding createAppRunnerService_def [abs_def] Let_def
  by (intro emits_rules) simp_all

text \<open>What a returned plan was computed from.\<close>

lemma send_Return:
  assumes "send ask ev tr = Some (Return a, tr1)"
  shows "ask tr = Got a \<and> tr1 = tr @ [ev (Got a)]"
  using assms by (cases "ask tr") (auto simp: send_def Let_def)

lemma computeUpdatePlan_result:
  assumes run: "computeUpdatePlan w options existingService tr = Some (Return needs, tr1)"
  shows "\<exists>url newArn desiredConfig pre.
     tr1 = tr @ GetEcrRepositoryArn (region options) (ecrRepositoryName options) (Got url) #
             pre @ [GetConfig (region options) (deployment options) (Got desiredConfig)] \<and>
     needs = diffNeeds options existingService url newArn desiredConfig"
  using run [unfolded computeUpdatePlan_def]
proof (cases rule: andThen_cases)
  case (continue url ta)
  from send_Return [OF continue(1)]
  have ta: "ta = tr @ [GetEcrRepositoryArn (region options) (ecrRepositoryName options) (Got url)]"
    by simp
  from continue(2) show ?thesis
  proof (cases rule: andThen_cases)
    case (continue u tb)
    from emits_reclaim [of "\<lambda>e. True" w "autoScalingConfigurationName options"] continue(1)
    obtain evs where tb: "tb = ta @ evs"
      unfolding emits_def by fastforce
    from continue(2) show ?thesis
    proof (cases rule: andThen_cases)
      case (continue configuration tc)
      from send_Return [OF continue(1)] obtain e3 where tc: "tc = tb @ [e3]"
        by simp
      from continue(2) show ?thesis
      proof (cases rule: andThen_cases)
        case (continue newArn td)
        from continue(1) obtain evs4 where td: "td = tc @ evs4"
          by (auto simp: send_def Let_def split: if_splits reply.splits)
        from continue(2) show ?thesis
        proof (cases rule: andThen_cases)
          case (continue desiredConfig te)
          from send_Return [OF continue(1)]
          have te: "te = td @ [GetConfig (region options) (deployment options) (Got desiredConfig)]"
            by simp
          from continue(2) have
            "needs = diffNeeds options existingService url newArn desiredConfig" "tr1 = te"
            by simp_all
          with ta tb tc td te have
            "tr1 = tr @ GetEcrRepositoryArn (region options) (ecrRepositoryName options) (Got url) #
               (evs @ e3 # evs4) @
               [GetConfig (region options) (deployment options) (Got desiredConfig)] \<and>
             needs = diffNeeds options existingService url newArn desiredConfig"
            by simp
          then show ?thesis by (intro exI)
        qed simp_all
      qed simp_all
    qed simp_all
  qed simp_all
qed simp_all



section \<open>The tests of the update flow against the specification's categories\<close>

lemma find_exists: "(find P xs \<noteq> None) = (\<exists>x\<in>set xs. P x)"
  by (auto simp: find_None_iff)

lemma configNeedsUpdate_sets:
  "configNeedsUpdate currentSecrets desiredConfig ignored \<longleftrightarrow>
     (let currentKeys =
            fst ` set (case currentSecrets of None \<Rightarrow> [] | Some c \<Rightarrow> c) - set ignored;
          desiredKeys = fst ` set desiredConfig - set ignored
      in (desiredKeys - currentKeys) \<union> (currentKeys - desiredKeys) \<noteq> {})"
proof -
  define cur where "cur = (case currentSecrets of None \<Rightarrow> [] | Some c \<Rightarrow> c)"
  have "configNeedsUpdate currentSecrets desiredConfig ignored \<longleftrightarrow>
      (\<exists>k\<in>fst ` set desiredConfig. k \<notin> fst ` set cur \<and> k \<notin> set ignored) \<or>
      (\<exists>k\<in>fst ` set cur. k \<notin> fst ` set desiredConfig \<and> k \<notin> set ignored)"
    unfolding configNeedsUpdate_def Let_def cur_def [symmetric] find_exists set_map by blast
  also have "\<dots> \<longleftrightarrow>
      (fst ` set desiredConfig - set ignored - (fst ` set cur - set ignored)) \<union>
      (fst ` set cur - set ignored - (fst ` set desiredConfig - set ignored)) \<noteq> {}"
    by blast
  finally show ?thesis unfolding Let_def cur_def .
qed

lemma autoScalingNeedsUpdate_iff:
  "autoScalingNeedsUpdate currentRevision (getAutoScalingSettings options) \<longleftrightarrow>
     differsIn Autoscaling options currentRevision observed registry desiredConfig"
  by (auto simp: autoScalingNeedsUpdate_def getAutoScalingSettings_def differsIn_def attr_def
        find_exists)

lemma healthCheckNeedsUpdate_iff:
  "healthCheckNeedsUpdate
     (case HealthCheckConfiguration observed of None \<Rightarrow> [] | Some c \<Rightarrow> c)
     (getHealthCheckSettings options) \<longleftrightarrow>
     differsIn Healthcheck options currentRevision observed registry desiredConfig"
  by (auto simp: healthCheckNeedsUpdate_def getHealthCheckSettings_def differsIn_def attr_def
        find_exists Let_def)

lemma instanceNeedsUpdate_iff:
  "instanceConfigurationNeedsUpdate observed options \<longleftrightarrow>
     differsIn Instance options currentRevision observed registry desiredConfig"
  by (simp add: instanceConfigurationNeedsUpdate_def differsIn_def)

lemma imageNeedsUpdate_iff:
  "imageNeedsUpdate observed registry options \<longleftrightarrow>
     differsIn Image options currentRevision observed registry desiredConfig"
  by (auto simp: imageNeedsUpdate_def differsIn_def orEmpty_def truthy_def
        split: option.splits)

lemma configNeedsUpdate_iff:
  "configNeedsUpdate (ImageRuntimeEnvironmentSecrets observed) desiredConfig
     (ignoreConfigKeys options) \<longleftrightarrow>
     differsIn Variables options currentRevision observed registry desiredConfig"
  by (simp add: configNeedsUpdate_sets differsIn_def)

lemma updatePlan_diffNeeds:
  "updatePlan (diffNeeds options observed registry newArn desiredConfig) =
     (if truthy newArn then [categoryLabel Autoscaling] else []) @
     (if differsIn Healthcheck options currentRevision observed registry desiredConfig
      then [categoryLabel Healthcheck] else []) @
     (if differsIn Instance options currentRevision observed registry desiredConfig
      then [categoryLabel Instance] else []) @
     (if differsIn Image options currentRevision observed registry desiredConfig
      then [categoryLabel Image] else []) @
     (if differsIn Variables options currentRevision observed registry desiredConfig
      then [categoryLabel Variables] else [])"
  unfolding updatePlan_def diffNeeds_def
  using healthCheckNeedsUpdate_iff [of observed options currentRevision registry desiredConfig]
    instanceNeedsUpdate_iff [of observed options currentRevision registry desiredConfig]
    imageNeedsUpdate_iff [of observed registry options currentRevision desiredConfig]
    configNeedsUpdate_iff [of observed desiredConfig options currentRevision registry]
  by (simp add: categoryLabel_def)

section \<open>Claims about the waiter\<close>

text \<open>
  C2, as the code has it. Every call of the waiter ends, right after a describe call. When
  that last observation is still \<^verbatim>\<open>OPERATION_IN_PROGRESS\<close>, at least \<open>maxWait\<close> seconds
  have been slept and the waiter returns absent when it waits for RUNNING and the
  last-observed record when it waits for DELETED. A wait for RUNNING returns a record only
  when that record was just observed with status \<^verbatim>\<open>RUNNING\<close>.
\<close>

theorem waiter_timeout_outcome:
  "\<exists>out mid rp.
     waitForAppRunnerService w serviceArn maxWait isDeleting tr =
       Some (out, tr @ mid @ [DescribeService serviceArn rp]) \<and>
     (\<forall>s. rp = Got (Some s) \<and> Status s = Some ''OPERATION_IN_PROGRESS'' \<longrightarrow>
        maxWait \<le> slept mid \<and> out = Return (if isDeleting then Some s else None)) \<and>
     (\<not> isDeleting \<longrightarrow> (\<forall>s. out = Return (Some s) \<longrightarrow>
        rp = Got (Some s) \<and> Status s = Some ''RUNNING''))"
proof -
  from waitFor_shape [of w serviceArn maxWait isDeleting tr]
  obtain out where "\<exists>mid rp.
     waitForAppRunnerService w serviceArn maxWait isDeleting tr =
       Some (out, tr @ mid @ [DescribeService serviceArn rp]) \<and>
     followsSchedule delayAfter 0 mid \<and>
     (\<forall>s. rp = Got (Some s) \<and> Status s = Some ''OPERATION_IN_PROGRESS'' \<longrightarrow>
        maxWait \<le> slept mid \<and> out = Return (if isDeleting then Some s else None)) \<and>
     (\<not> isDeleting \<longrightarrow> (\<forall>s. out = Return (Some s) \<longrightarrow>
        rp = Got (Some s) \<and> Status s = Some ''RUNNING''))" ..
  then obtain mid where "\<exists>rp.
     waitForAppRunnerService w serviceArn maxWait isDeleting tr =
       Some (out, tr @ mid @ [DescribeService serviceArn rp]) \<and>
     followsSchedule delayAfter 0 mid \<and>
     (\<forall>s. rp = Got (Some s) \<and> Status s = Some ''OPERATION_IN_PROGRESS'' \<longrightarrow>
        maxWait \<le> slept mid \<and> out = Return (if isDeleting then Some s else None)) \<and>
     (\<not> isDeleting \<longrightarrow> (\<forall>s. out = Return (Some s) \<longrightarrow>
        rp = Got (Some s) \<and> Status s = Some ''RUNNING''))" ..
  then obtain rp where all:
    "waitForAppRunnerService w serviceArn maxWait isDeleting tr =
       Some (out, tr @ mid @ [DescribeService serviceArn rp]) \<and>
     followsSchedule delayAfter 0 mid \<and>
     (\<forall>s. rp = Got (Some s) \<and> Status s = Some ''OPERATION_IN_PROGRESS'' \<longrightarrow>
        maxWait \<le> slept mid \<and> out = Return (if isDeleting then Some s else None)) \<and>
     (\<not> isDeleting \<longrightarrow> (\<forall>s. out = Return (Some s) \<longrightarrow>
        rp = Got (Some s) \<and> Status s = Some ''RUNNING''))" ..
  have "waitForAppRunnerService w serviceArn maxWait isDeleting tr =
       Some (out, tr @ mid @ [DescribeService serviceArn rp]) \<and>
     (\<forall>s. rp = Got (Some s) \<and> Status s = Some ''OPERATION_IN_PROGRESS'' \<longrightarrow>
        maxWait \<le> slept mid \<and> out = Return (if isDeleting then Some s else None)) \<and>
     (\<not> isDeleting \<longrightarrow> (\<forall>s. out = Return (Some s) \<longrightarrow>
        rp = Got (Some s) \<and> Status s = Some ''RUNNING''))"
    using all [THEN conjunct1] all [THEN conjunct2, THEN conjunct2, THEN conjunct1]
      all [THEN conjunct2, THEN conjunct2, THEN conjunct2]
    by (intro conjI)
  then show ?thesis by (intro exI)
qed

theorem waiter_timeout_outcome_witness:
  "Status busyService = Some ''OPERATION_IN_PROGRESS'' \<and>
   fst (the (waitForAppRunnerService busyWorld ''arn'' 2 False [])) = Return None \<and>
   fst (the (waitForAppRunnerService busyWorld ''arn'' 2 True [])) = Return (Some busyService) \<and>
   fst (the (waitForAppRunnerService convergedWorld ''arn'' 2 False [])) =
     Return (Some convergedService) \<and>
   Status convergedService = Some ''RUNNING''"
proof -
  have st: "Status busyService = Some ''OPERATION_IN_PROGRESS''"
    by (simp add: busyService_def)
  have one: "fst (the (waitForAppRunnerService busyWorld ''arn'' 2 isDeleting [])) =
      Return (if isDeleting then Some busyService else None)" for isDeleting
  proof -
    from waiter_timeout_outcome [of busyWorld "''arn''" 2 isDeleting "[]"]
    obtain out mid rp where
      run: "waitForAppRunnerService busyWorld ''arn'' 2 isDeleting [] =
              Some (out, [] @ mid @ [DescribeService ''arn'' rp])"
      and tmo: "\<forall>s. rp = Got (Some s) \<and> Status s = Some ''OPERATION_IN_PROGRESS'' \<longrightarrow>
              2 \<le> slept mid \<and> out = Return (if isDeleting then Some s else None)"
      by (elim exE conjE)
    from run have "rp = Got (Some busyService)"
      by (simp add: busy_run_2 append_eq_append_conv2 Cons_eq_append_conv)
    with tmo st have "out = Return (if isDeleting then Some busyService else None)"
      by blast
    with run show ?thesis by simp
  qed
  have running: "fst (the (waitForAppRunnerService convergedWorld ''arn'' 2 False [])) =
      Return (Some convergedService) \<and> Status convergedService = Some ''RUNNING''"
    using waiter_timeout_outcome [of convergedWorld "''arn''" 2 False "[]"]
    by (simp add: running_run convergedService_def)
  from st one [of False] one [of True] running show ?thesis by simp
qed

theorem waiter_timeout_counterexample:
  "waitForAppRunnerService busyWorld ''arn'' 2 False [] =
     Some (Return None,
       [DescribeService ''arn'' (Got (Some busyService)), Sleep 1,
        DescribeService ''arn'' (Got (Some busyService)), Sleep 1,
        DescribeService ''arn'' (Got (Some busyService))]) \<and>
   waitForAppRunnerService busyWorld ''arn'' 2 True [] =
     Some (Return (Some busyService),
       [DescribeService ''arn'' (Got (Some busyService)), Sleep 1,
        DescribeService ''arn'' (Got (Some busyService)), Sleep 1,
        DescribeService ''arn'' (Got (Some busyService))])"
  using busy_run_2 [of False] busy_run_2 [of True] by simp

text \<open>
  C4, as the code has it. The events of a call of the waiter are describe calls for the
  service; each describe but the last was answered in progress and is followed by exactly
  one sleep, and then by the next describe. That sleep lasts \<open>delayAfter\<close> of the seconds
  slept before it: 1s while at most 5 seconds have elapsed, 2s after more than 5 and at
  most 20, 5s after more than 20 and at most 60, 10s after more than 60.
\<close>

theorem waiter_delay_schedule:
  "\<exists>out evs.
     waitForAppRunnerService w serviceArn maxWait isDeleting tr = Some (out, tr @ evs) \<and>
     polled serviceArn delayAfter 0 evs"
proof -
  from waitFor_polled [of w serviceArn maxWait isDeleting tr]
  obtain out mid rp where
    "waitForAppRunnerService w serviceArn maxWait isDeleting tr =
       Some (out, tr @ mid @ [DescribeService serviceArn rp])"
    "polled serviceArn delayAfter 0 (mid @ [DescribeService serviceArn rp])"
    by (elim exE conjE)
  then have "waitForAppRunnerService w serviceArn maxWait isDeleting tr =
       Some (out, tr @ (mid @ [DescribeService serviceArn rp])) \<and>
     polled serviceArn delayAfter 0 (mid @ [DescribeService serviceArn rp])"
    by simp
  then show ?thesis by (intro exI)
qed

theorem waiter_delay_schedule_witness:
  "polled ''arn'' delayAfter 0
     (snd (the (waitForAppRunnerService busyWorld ''arn'' 6 False [])))"
  using waiter_delay_schedule [of busyWorld "''arn''" 6 False "[]"] by auto

text \<open>
  The schedule as the specification words it fails after the sixth poll of a service that
  stays in progress: five seconds have elapsed and the waiter sleeps one second, not two.
\<close>

theorem waiter_delay_schedule_counterexample:
  "sleeps (snd (the (waitForAppRunnerService busyWorld ''arn'' 6 False []))) =
     [1, 1, 1, 1, 1, 1] \<and>
   specifiedDelay 5 = 2 \<and>
   \<not> polled ''arn'' specifiedDelay 0
       (snd (the (waitForAppRunnerService busyWorld ''arn'' 6 False [])))"
  by (simp add: busy_run_6 specifiedDelay_def inProgress_def busyService_def statusOf_def)

section \<open>Claims about the diff\<close>

text \<open>
  C7. The update plan lists the variables category exactly when the key sets of the observed
  service's \<^verbatim>\<open>RuntimeEnvironmentSecrets\<close> and of the desired bindings, both without the keys
  of \<^verbatim>\<open>options.ignoreConfigKeys\<close>, differ in either direction. Only keys enter the
  comparison: the right-hand side never reads a value. The plan of an update run is computed
  from the observed service, the options and, for the desired bindings, the answer of the
  configuration lookup, the last call made before the plan. With \<^verbatim>\<open>LEGACY_KEY\<close> ignored,
  current keys \<^verbatim>\<open>{A, LEGACY_KEY}\<close> and desired keys \<^verbatim>\<open>{A}\<close> give a plan without the
  variables category, whatever the values.
\<close>

theorem variables_compare_keys_only:
  "(''variables'' \<in> set (updatePlan
        (diffNeeds options existingService registry newArn desiredConfig)) \<longleftrightarrow>
     (let currentKeys =
            fst ` set (case ImageRuntimeEnvironmentSecrets existingService of
                         None \<Rightarrow> [] | Some c \<Rightarrow> c) - set (ignoreConfigKeys options);
          desiredKeys = fst ` set desiredConfig - set (ignoreConfigKeys options)
      in (desiredKeys - currentKeys) \<union> (currentKeys - desiredKeys) \<noteq> {})) \<and>
   (computeUpdatePlan w options existingService tr = Some (Return needs, tr1) \<longrightarrow>
      (\<exists>url arn config pre.
         tr1 = tr @ GetEcrRepositoryArn (region options) (ecrRepositoryName options) (Got url) #
                 pre @ [GetConfig (region options) (deployment options) (Got config)] \<and>
         needs = diffNeeds options existingService url arn config)) \<and>
   (ignoreConfigKeys options = [''LEGACY_KEY''] \<and>
    ImageRuntimeEnvironmentSecrets existingService = Some [(''A'', a), (''LEGACY_KEY'', l)] \<longrightarrow>
      ''variables'' \<notin> set (updatePlan
        (diffNeeds options existingService registry newArn [(''A'', a')])))"
proof (intro conjI impI)
  have "''variables'' \<in> set (updatePlan
        (diffNeeds options existingService registry newArn desiredConfig)) \<longleftrightarrow>
      configNeedsUpdate (ImageRuntimeEnvironmentSecrets existingService) desiredConfig
        (ignoreConfigKeys options)"
    by (simp add: updatePlan_def diffNeeds_def)
  then show "''variables'' \<in> set (updatePlan
        (diffNeeds options existingService registry newArn desiredConfig)) \<longleftrightarrow>
     (let currentKeys =
            fst ` set (case ImageRuntimeEnvironmentSecrets existingService of
                         None \<Rightarrow> [] | Some c \<Rightarrow> c) - set (ignoreConfigKeys options);
          desiredKeys = fst ` set desiredConfig - set (ignoreConfigKeys options)
      in (desiredKeys - currentKeys) \<union> (currentKeys - desiredKeys) \<noteq> {})"
    by (simp only: configNeedsUpdate_sets)
  show "\<exists>url arn config pre.
         tr1 = tr @ GetEcrRepositoryArn (region options) (ecrRepositoryName options) (Got url) #
                 pre @ [GetConfig (region options) (deployment options) (Got config)] \<and>
         needs = diffNeeds options existingService url arn config"
    if "computeUpdatePlan w options existingService tr = Some (Return needs, tr1)"
    using that by (rule computeUpdatePlan_result)
  show "''variables'' \<notin> set (updatePlan
        (diffNeeds options existingService registry newArn [(''A'', a')]))"
    if "ignoreConfigKeys options = [''LEGACY_KEY''] \<and>
        ImageRuntimeEnvironmentSecrets existingService = Some [(''A'', a), (''LEGACY_KEY'', l)]"
    using that by (simp add: updatePlan_def diffNeeds_def configNeedsUpdate_def)
qed

section \<open>Claims about the flows\<close>


section \<open>Example runs\<close>

lemmas world_defs = quietWorld_def busyWorld_def convergedWorld_def noArnWorld_def
  updatedWorld_def

lemmas flow_defs = updateAppRunnerService_def computeUpdatePlan_def applyUpdatePlan_def
  andThen_def send_def deleteUnusedAutoScalingConfigurations_def deleteUnusedLoop.simps
  waitForAppRunnerService_def waitLoop.simps Let_def

lemmas example_defs = exampleOptions_def widerOptions_def newerOptions_def
  convergedService_def updatedService_def convergedRevision_def

lemmas test_defs = truthy_def orEmpty_def diffNeeds_def updatePlan_def
  autoScalingNeedsUpdate_def healthCheckNeedsUpdate_def instanceConfigurationNeedsUpdate_def
  imageNeedsUpdate_def configNeedsUpdate_def getAutoScalingSettings_def
  getHealthCheckSettings_def attr_def statusOf_def stampOf_def
  updateSourceConfiguration_def sourceConfigurationOf_def serviceTags_def

lemma converged_plan:
  "computeUpdatePlan convergedWorld exampleOptions convergedService [] =
     Some (Return (diffNeeds exampleOptions convergedService ''registry/web'' None
                     [(''A'', ''a'')]),
       [GetEcrRepositoryArn ''eu'' ''web'' (Got ''registry/web''),
        ListAutoScalingConfigurations ''web-scaling'' None (Got (None, None)),
        DescribeAutoScalingConfiguration ''scaling/1'' (Got (Some convergedRevision)),
        GetConfig ''eu'' ''main'' (Got [(''A'', ''a'')])])"
  by (simp add: flow_defs world_defs example_defs truthy_def orEmpty_def
        autoScalingNeedsUpdate_def getAutoScalingSettings_def attr_def)

lemma converged_plan_empty:
  "updatePlan (diffNeeds exampleOptions convergedService ''registry/web'' None
                 [(''A'', ''a'')]) = []"
  by (simp add: example_defs test_defs)

lemma converged_run:
  "updateAppRunnerService convergedWorld exampleOptions convergedService [] =
     Some (Return (),
       [GetEcrRepositoryArn ''eu'' ''web'' (Got ''registry/web''),
        ListAutoScalingConfigurations ''web-scaling'' None (Got (None, None)),
        DescribeAutoScalingConfiguration ''scaling/1'' (Got (Some convergedRevision)),
        GetConfig ''eu'' ''main'' (Got [(''A'', ''a'')])])"
  by (simp add: updateAppRunnerService_def converged_plan applyUpdatePlan_def
        converged_plan_empty)

lemma no_arn_plan:
  "computeUpdatePlan noArnWorld widerOptions convergedService [] =
     Some (Return (diffNeeds widerOptions convergedService ''registry/web'' None
                     [(''A'', ''a'')]),
       [GetEcrRepositoryArn ''eu'' ''web'' (Got ''registry/web''),
        ListAutoScalingConfigurations ''web-scaling'' None (Got (None, None)),
        DescribeAutoScalingConfiguration ''scaling/1'' (Got (Some convergedRevision)),
        CreateAutoScalingConfiguration ''web-scaling'' (getAutoScalingSettings widerOptions)
          (serviceTags noArnWorld widerOptions) (Got None),
        GetConfig ''eu'' ''main'' (Got [(''A'', ''a'')])])"
  by (simp add: flow_defs world_defs example_defs truthy_def orEmpty_def
        autoScalingNeedsUpdate_def getAutoScalingSettings_def attr_def serviceTags_def)

lemma differs_wider:
  "differsIn c widerOptions convergedRevision convergedService ''registry/web'' [(''A'', ''a'')]
     \<longleftrightarrow> c = Autoscaling"
  by (cases c) (auto simp: differsIn_def example_defs attr_def)

lemma differs_newer:
  "differsIn c newerOptions convergedRevision convergedService ''registry/web'' [(''A'', ''a'')]
     \<longleftrightarrow> c = Image"
  by (cases c) (auto simp: differsIn_def example_defs attr_def)



lemma newer_plan:
  "computeUpdatePlan updatedWorld newerOptions convergedService [] =
     Some (Return (diffNeeds newerOptions convergedService ''registry/web'' None
                     [(''A'', ''a'')]),
       [GetEcrRepositoryArn ''eu'' ''web'' (Got ''registry/web''),
        ListAutoScalingConfigurations ''web-scaling'' None (Got (None, None)),
        DescribeAutoScalingConfiguration ''scaling/1'' (Got (Some convergedRevision)),
        GetConfig ''eu'' ''main'' (Got [(''A'', ''a'')])])"
  by (simp add: flow_defs world_defs example_defs truthy_def orEmpty_def
        autoScalingNeedsUpdate_def getAutoScalingSettings_def attr_def)

lemma newer_plan_image:
  "updatePlan (diffNeeds newerOptions convergedService ''registry/web'' None
                 [(''A'', ''a'')]) = [''image'']"
  by (simp add: example_defs test_defs)

lemma image_only_run:
  "updateAppRunnerService updatedWorld newerOptions convergedService [] =
     Some (Exit RolledBack,
       [GetEcrRepositoryArn ''eu'' ''web'' (Got ''registry/web''),
        ListAutoScalingConfigurations ''web-scaling'' None (Got (None, None)),
        DescribeAutoScalingConfiguration ''scaling/1'' (Got (Some convergedRevision)),
        GetConfig ''eu'' ''main'' (Got [(''A'', ''a'')]),
        Now ''T1'',
        UpdateService (Some ''arn'') None None None
          (Some \<lparr>ImageIdentifier = ''registry/web:v2'', ImageRepositoryType = ''ECR'',
                  ImageConfiguration = None, AutoDeploymentsEnabled = False,
                  AccessRoleArn = ''role''\<rparr>) (Got ()),
        TagResource (Some ''arn'') (serviceTags updatedWorld newerOptions) (Got ()),
        DescribeService ''arn'' (Got (Some updatedService))])"
  by (simp add: flow_defs world_defs example_defs test_defs)

lemma applyUpdatePlan_empty:
  "updatePlan needs = [] \<Longrightarrow> applyUpdatePlan w options existingService needs tr = Some (Return (), tr)"
  by (simp add: applyUpdatePlan_def)

lemma andThen_send:
  "andThen (send ask ev tr) f =
     (case ask tr of
        Threw name \<Rightarrow> Some (Throw name, tr @ [ev (ask tr)])
      | Got v \<Rightarrow> f v (tr @ [ev (ask tr)]))"
  by (simp add: send_def Let_def split: reply.split)

lemma applyUpdatePlan_nonempty:
  assumes "updatePlan needs \<noteq> []"
  shows "\<exists>out arn health instance source reply post.
     applyUpdatePlan w options existingService needs tr =
       Some (out, tr @ Now (onNow w tr) #
          UpdateService (ServiceArn existingService) arn health instance source reply # post) \<and>
     (\<forall>err. reply = Threw err \<longrightarrow> post = [] \<and> out = Throw err) \<and>
     (reply = Got () \<longrightarrow>
        (\<exists>tagReply post'. post =
           TagResource (ServiceArn existingService) (serviceTags w options) tagReply # post'))"
proof -
  define updatedAt where "updatedAt = onNow w tr"
  define arn where "arn = (if truthy (newAutoScalingConfigurationArn needs)
                    then newAutoScalingConfigurationArn needs else None)"
  define health where "health = (if healthCheckNeeds needs
      then Some (getHealthCheckSettings options) else None)"
  define inst where "inst = (if instanceConfigurationNeeds needs
                         then Some (instanceConfigurationOf options) else None)"
  define source where "source = updateSourceConfiguration options needs updatedAt"
  define tr1 where "tr1 = tr @ [Now updatedAt]"
  define reply where
    "reply = onUpdateService w tr1 (ServiceArn existingService) arn health inst source"
  define tr2 where
    "tr2 = tr1 @ [UpdateService (ServiceArn existingService) arn health inst source reply]"
  define tagReply where
    "tagReply = onTagResource w tr2 (ServiceArn existingService) (serviceTags w options)"
  define tr3 where
    "tr3 = tr2 @ [TagResource (ServiceArn existingService) (serviceTags w options) tagReply]"
  define check where "check = (\<lambda>service (tr :: event list).
              case service of
                None \<Rightarrow> Some (Exit UpdateDidNotReachRunning, tr)
              | Some s \<Rightarrow>
                  if stampOf s \<noteq> Some updatedAt then Some (Exit RolledBack, tr)
                  else Some (Return (), tr))"
  have eq: "applyUpdatePlan w options existingService needs tr =
     (case reply of
        Threw err \<Rightarrow> Some (Throw err, tr2)
      | Got u \<Rightarrow>
          (case tagReply of
             Threw err \<Rightarrow> Some (Throw err, tr3)
           | Got u \<Rightarrow>
               andThen (waitForAppRunnerService w (orEmpty (ServiceArn existingService))
                    MaxWaitTimeForAppRunnerUpdate False tr3) check))"
    unfolding applyUpdatePlan_def Let_def andThen_send
    unfolding updatedAt_def [symmetric] arn_def [symmetric] health_def [symmetric]
      inst_def [symmetric] source_def [symmetric] tr1_def [symmetric] reply_def [symmetric]
      tr2_def [symmetric] tagReply_def [symmetric] tr3_def [symmetric] check_def [symmetric]
    using assms by simp
  have waited: "\<exists>out post. andThen (waitForAppRunnerService w (orEmpty (ServiceArn existingService))
                    MaxWaitTimeForAppRunnerUpdate False tr3) check = Some (out, tr3 @ post)"
  proof -
    from waitFor_shape [of w "orEmpty (ServiceArn existingService)"
        MaxWaitTimeForAppRunnerUpdate False tr3]
    obtain out mid rp where
      "waitForAppRunnerService w (orEmpty (ServiceArn existingService))
          MaxWaitTimeForAppRunnerUpdate False tr3 =
        Some (out, tr3 @ mid @ [DescribeService (orEmpty (ServiceArn existingService)) rp])"
      by (elim exE conjE)
    then show ?thesis
      by (cases out) (auto simp: check_def split: option.split)
  qed
  have trs: "tr2 = tr @ Now (onNow w tr) #
      [UpdateService (ServiceArn existingService) arn health inst source reply]"
    "tr3 = tr @ Now (onNow w tr) #
      UpdateService (ServiceArn existingService) arn health inst source reply #
      [TagResource (ServiceArn existingService) (serviceTags w options) tagReply]"
    by (simp_all add: tr3_def tr2_def tr1_def updatedAt_def)
  let ?goal = "\<lambda>out post.
     applyUpdatePlan w options existingService needs tr =
       Some (out, tr @ Now (onNow w tr) #
          UpdateService (ServiceArn existingService) arn health inst source reply # post) \<and>
     (\<forall>err. reply = Threw err \<longrightarrow> post = [] \<and> out = Throw err) \<and>
     (reply = Got () \<longrightarrow>
        (\<exists>tagReply post'. post =
           TagResource (ServiceArn existingService) (serviceTags w options) tagReply # post'))"
  show ?thesis
  proof (cases reply)
    case (Threw err)
    have "?goal (Throw err) []"
      by (simp add: eq Threw trs)
    then show ?thesis by (intro exI)
  next
    case (Got u)
    show ?thesis
    proof (cases tagReply)
      case (Threw err)
      have "?goal (Throw err)
          [TagResource (ServiceArn existingService) (serviceTags w options) tagReply]"
        by (simp add: eq Got Threw trs)
      then show ?thesis by (intro exI)
    next
      case Got': (Got u')
      from waited obtain out post where
        "andThen (waitForAppRunnerService w (orEmpty (ServiceArn existingService))
                    MaxWaitTimeForAppRunnerUpdate False tr3) check = Some (out, tr3 @ post)"
        by (elim exE)
      then have "?goal out
          (TagResource (ServiceArn existingService) (serviceTags w options) tagReply # post)"
        by (simp add: eq Got Got' trs)
      then show ?thesis by (intro exI)
    qed
  qed
qed

section \<open>Claims about the flows, continued\<close>

theorem variables_compare_keys_only_witness:
  "computeUpdatePlan convergedWorld exampleOptions convergedService [] =
     Some (Return (diffNeeds exampleOptions convergedService ''registry/web'' None
                     [(''A'', ''a'')]),
       [GetEcrRepositoryArn ''eu'' ''web'' (Got ''registry/web''),
        ListAutoScalingConfigurations ''web-scaling'' None (Got (None, None)),
        DescribeAutoScalingConfiguration ''scaling/1'' (Got (Some convergedRevision)),
        GetConfig ''eu'' ''main'' (Got [(''A'', ''a'')])]) \<and>
   ignoreConfigKeys exampleOptions = [''LEGACY_KEY''] \<and>
   ImageRuntimeEnvironmentSecrets convergedService = Some [(''A'', ''a''), (''LEGACY_KEY'', ''l'')] \<and>
   ''variables'' \<notin> set (updatePlan
      (diffNeeds exampleOptions convergedService ''registry/web'' None [(''A'', ''a'')])) \<and>
   ''variables'' \<notin> set (updatePlan
      (diffNeeds exampleOptions convergedService ''registry/web'' None [(''A'', ''changed'')])) \<and>
   ''variables'' \<in> set (updatePlan
      (diffNeeds exampleOptions convergedService ''registry/web'' None
         [(''A'', ''a''), (''B'', ''b'')])) \<and>
   ''variables'' \<in> set (updatePlan
      (diffNeeds exampleOptions convergedService ''registry/web'' None []))"
proof -
  have opts: "ignoreConfigKeys exampleOptions = [''LEGACY_KEY'']"
    by (simp add: exampleOptions_def)
  have cur: "ImageRuntimeEnvironmentSecrets convergedService =
      Some [(''A'', ''a''), (''LEGACY_KEY'', ''l'')]"
    by (simp add: convergedService_def)
  have 1: "''variables'' \<notin> set (updatePlan
      (diffNeeds exampleOptions convergedService ''registry/web'' None [(''A'', ''a'')]))"
    using variables_compare_keys_only [where options = exampleOptions
        and existingService = convergedService and registry = "''registry/web''"
        and newArn = None and a = "''a''" and l = "''l''" and a' = "''a''",
        THEN conjunct2, THEN conjunct2] opts cur
    by simp
  have 2: "''variables'' \<notin> set (updatePlan
      (diffNeeds exampleOptions convergedService ''registry/web'' None [(''A'', ''changed'')]))"
    using variables_compare_keys_only [where options = exampleOptions
        and existingService = convergedService and registry = "''registry/web''"
        and newArn = None and a = "''a''" and l = "''l''" and a' = "''changed''",
        THEN conjunct2, THEN conjunct2] opts cur
    by simp
  have 3: "''variables'' \<in> set (updatePlan
      (diffNeeds exampleOptions convergedService ''registry/web'' None
         [(''A'', ''a''), (''B'', ''b'')]))"
    unfolding variables_compare_keys_only [where options = exampleOptions
        and existingService = convergedService and registry = "''registry/web''"
        and newArn = None and desiredConfig = "[(''A'', ''a''), (''B'', ''b'')]",
        THEN conjunct1] opts cur
    by (simp add: Let_def)
  have 4: "''variables'' \<in> set (updatePlan
      (diffNeeds exampleOptions convergedService ''registry/web'' None []))"
    unfolding variables_compare_keys_only [where options = exampleOptions
        and existingService = convergedService and registry = "''registry/web''"
        and newArn = None and desiredConfig = "[]", THEN conjunct1] opts cur
    by (simp add: Let_def)
  from converged_plan opts cur 1 2 3 4 show ?thesis by (intro conjI)
qed



text \<open>
  C6, as the code has it. A new revision is needed exactly when one of
  \<^verbatim>\<open>MaxConcurrency\<close>, \<^verbatim>\<open>MinSize\<close>, \<^verbatim>\<open>MaxSize\<close> of the current revision is unequal to the
  desired value. When observed and desired state differ in exactly one category, the plan
  holds exactly that category, provided, for the autoscaling category, that the creation of
  the new revision answered with a non-empty arn: the plan lists autoscaling by that arn, not
  by the comparison.
\<close>

theorem plan_holds_the_one_category:
  "(autoScalingNeedsUpdate currentRevision (getAutoScalingSettings options) \<longleftrightarrow>
      differsIn Autoscaling options currentRevision observed registry desiredConfig) \<and>
   (differsIn c options currentRevision observed registry desiredConfig \<and>
    (\<forall>c'. c' \<noteq> c \<longrightarrow> \<not> differsIn c' options currentRevision observed registry desiredConfig) \<and>
    (c = Autoscaling \<longrightarrow> truthy createdArn) \<longrightarrow>
      updatePlan (diffNeeds options observed registry
        (if autoScalingNeedsUpdate currentRevision (getAutoScalingSettings options)
         then createdArn else None) desiredConfig) = [categoryLabel c])"
proof (intro conjI impI)
  show a: "autoScalingNeedsUpdate currentRevision (getAutoScalingSettings options) \<longleftrightarrow>
      differsIn Autoscaling options currentRevision observed registry desiredConfig"
    by (rule autoScalingNeedsUpdate_iff)
  assume h: "differsIn c options currentRevision observed registry desiredConfig \<and>
    (\<forall>c'. c' \<noteq> c \<longrightarrow> \<not> differsIn c' options currentRevision observed registry desiredConfig) \<and>
    (c = Autoscaling \<longrightarrow> truthy createdArn)"
  then have others: "\<And>c'. differsIn c' options currentRevision observed registry desiredConfig
      \<longleftrightarrow> c' = c"
    by blast
  from h have arn: "c = Autoscaling \<Longrightarrow> truthy createdArn" by blast
  show "updatePlan (diffNeeds options observed registry
        (if autoScalingNeedsUpdate currentRevision (getAutoScalingSettings options)
         then createdArn else None) desiredConfig) = [categoryLabel c]"
    using arn
    by (cases c)
       (simp_all add: updatePlan_diffNeeds [where currentRevision = currentRevision] a others
          truthy_def)
qed

theorem plan_holds_the_one_category_witness:
  "differsIn Image newerOptions convergedRevision convergedService ''registry/web''
     [(''A'', ''a'')] \<and>
   updatePlan (diffNeeds newerOptions convergedService ''registry/web'' None [(''A'', ''a'')]) =
     [''image''] \<and>
   differsIn Autoscaling widerOptions convergedRevision convergedService ''registry/web''
     [(''A'', ''a'')] \<and>
   updatePlan (diffNeeds widerOptions convergedService ''registry/web'' (Some ''scaling/2'')
     [(''A'', ''a'')]) = [''autoscaling settings'']"
proof -
  have image: "differsIn Image newerOptions convergedRevision convergedService ''registry/web''
      [(''A'', ''a'')] \<and>
    (\<forall>c'. c' \<noteq> Image \<longrightarrow> \<not> differsIn c' newerOptions convergedRevision convergedService
       ''registry/web'' [(''A'', ''a'')]) \<and>
    (Image = Autoscaling \<longrightarrow> truthy None)"
    by (simp add: differs_newer)
  have scaling: "differsIn Autoscaling widerOptions convergedRevision convergedService
      ''registry/web'' [(''A'', ''a'')] \<and>
    (\<forall>c'. c' \<noteq> Autoscaling \<longrightarrow> \<not> differsIn c' widerOptions convergedRevision convergedService
       ''registry/web'' [(''A'', ''a'')]) \<and>
    (Autoscaling = Autoscaling \<longrightarrow> truthy (Some ''scaling/2''))"
    by (simp add: differs_wider truthy_def)
  have "\<not> autoScalingNeedsUpdate convergedRevision (getAutoScalingSettings newerOptions)"
    using plan_holds_the_one_category [of convergedRevision newerOptions convergedService
        "''registry/web''" "[(''A'', ''a'')]" Image None]
    by (simp add: differs_newer)
  moreover have "autoScalingNeedsUpdate convergedRevision (getAutoScalingSettings widerOptions)"
    using plan_holds_the_one_category [of convergedRevision widerOptions convergedService
        "''registry/web''" "[(''A'', ''a'')]" Autoscaling None]
    by (simp add: differs_wider)
  ultimately show ?thesis
    using image scaling
      plan_holds_the_one_category [of convergedRevision newerOptions convergedService
        "''registry/web''" "[(''A'', ''a'')]" Image None, THEN conjunct2]
      plan_holds_the_one_category [of convergedRevision widerOptions convergedService
        "''registry/web''" "[(''A'', ''a'')]" Autoscaling "Some ''scaling/2''", THEN conjunct2]
    by (simp add: categoryLabel_def)
qed

theorem plan_holds_the_one_category_counterexample:
  "differsIn Autoscaling widerOptions convergedRevision convergedService ''registry/web''
     [(''A'', ''a'')] \<and>
   \<not> differsIn Healthcheck widerOptions convergedRevision convergedService ''registry/web''
     [(''A'', ''a'')] \<and>
   \<not> differsIn Instance widerOptions convergedRevision convergedService ''registry/web''
     [(''A'', ''a'')] \<and>
   \<not> differsIn Image widerOptions convergedRevision convergedService ''registry/web''
     [(''A'', ''a'')] \<and>
   \<not> differsIn Variables widerOptions convergedRevision convergedService ''registry/web''
     [(''A'', ''a'')] \<and>
   computeUpdatePlan noArnWorld widerOptions convergedService [] =
     Some (Return (diffNeeds widerOptions convergedService ''registry/web'' None
                     [(''A'', ''a'')]),
       [GetEcrRepositoryArn ''eu'' ''web'' (Got ''registry/web''),
        ListAutoScalingConfigurations ''web-scaling'' None (Got (None, None)),
        DescribeAutoScalingConfiguration ''scaling/1'' (Got (Some convergedRevision)),
        CreateAutoScalingConfiguration ''web-scaling'' (getAutoScalingSettings widerOptions)
          (serviceTags noArnWorld widerOptions) (Got None),
        GetConfig ''eu'' ''main'' (Got [(''A'', ''a'')])]) \<and>
   updatePlan (diffNeeds widerOptions convergedService ''registry/web'' None [(''A'', ''a'')]) =
     []"
  by (simp add: differs_wider no_arn_plan) (simp add: example_defs test_defs)

text \<open>
  C3, as the code has it. Up to the plan, an update flow makes only the registry lookup, the
  reclaim's list and delete calls, the describe and possibly the create of the autoscaling
  revision, and the configuration lookup. With an empty plan the flow then returns without
  a further call: no update and no tag call. With a non-empty plan it reads the clock and
  sends the update request; if that is refused the flow ends there, and if it is accepted the
  tag call follows at once.
\<close>

theorem tag_call_follows_update:
  assumes plan: "computeUpdatePlan w options existingService tr = Some (Return needs, tr1)"
  shows "(\<exists>evs. tr1 = tr @ evs \<and> list_all isPlanningCall evs) \<and>
     (updatePlan needs = [] \<longrightarrow>
        updateAppRunnerService w options existingService tr = Some (Return (), tr1)) \<and>
     (updatePlan needs \<noteq> [] \<longrightarrow>
        (\<exists>out arn health instance source reply post.
           updateAppRunnerService w options existingService tr =
             Some (out, tr1 @ Now (onNow w tr1) #
                UpdateService (ServiceArn existingService) arn health instance source reply #
                post) \<and>
           (\<forall>err. reply = Threw err \<longrightarrow> post = [] \<and> out = Throw err) \<and>
           (reply = Got () \<longrightarrow>
              (\<exists>tagReply post'. post =
                 TagResource (ServiceArn existingService) (serviceTags w options) tagReply #
                 post'))))"
proof (intro conjI impI)
  from emits_computeUpdatePlan [of w options existingService] plan
  show "\<exists>evs. tr1 = tr @ evs \<and> list_all isPlanningCall evs"
    unfolding emits_def by fastforce
  have run: "updateAppRunnerService w options existingService tr =
      applyUpdatePlan w options existingService needs tr1"
    by (simp add: updateAppRunnerService_def plan)
  show "updateAppRunnerService w options existingService tr = Some (Return (), tr1)"
    if "updatePlan needs = []"
    using that by (simp add: run applyUpdatePlan_empty)
  show "\<exists>out arn health instance source reply post.
           updateAppRunnerService w options existingService tr =
             Some (out, tr1 @ Now (onNow w tr1) #
                UpdateService (ServiceArn existingService) arn health instance source reply #
                post) \<and>
           (\<forall>err. reply = Threw err \<longrightarrow> post = [] \<and> out = Throw err) \<and>
           (reply = Got () \<longrightarrow>
              (\<exists>tagReply post'. post =
                 TagResource (ServiceArn existingService) (serviceTags w options) tagReply #
                 post'))"
    if "updatePlan needs \<noteq> []"
    unfolding run by (rule applyUpdatePlan_nonempty [OF that])
qed


theorem tag_call_follows_update_witness:
  "updatePlan (diffNeeds exampleOptions convergedService ''registry/web'' None
                 [(''A'', ''a'')]) = [] \<and>
   updateAppRunnerService convergedWorld exampleOptions convergedService [] =
     Some (Return (),
       [GetEcrRepositoryArn ''eu'' ''web'' (Got ''registry/web''),
        ListAutoScalingConfigurations ''web-scaling'' None (Got (None, None)),
        DescribeAutoScalingConfiguration ''scaling/1'' (Got (Some convergedRevision)),
        GetConfig ''eu'' ''main'' (Got [(''A'', ''a'')])]) \<and>
   updatePlan (diffNeeds newerOptions convergedService ''registry/web'' None
                 [(''A'', ''a'')]) = [''image''] \<and>
   snd (the (updateAppRunnerService updatedWorld newerOptions convergedService [])) ! 6 =
     TagResource (Some ''arn'') (serviceTags updatedWorld newerOptions) (Got ())"
proof -
  have "snd (the (updateAppRunnerService updatedWorld newerOptions convergedService [])) ! 6 =
     TagResource (Some ''arn'') (serviceTags updatedWorld newerOptions) (Got ())"
    using tag_call_follows_update [OF newer_plan] newer_plan_image
    by (simp add: image_only_run)
  then show ?thesis
    using tag_call_follows_update [OF converged_plan] converged_plan_empty newer_plan_image
    by simp
qed

theorem tag_call_follows_update_counterexample:
  "updatePlan (diffNeeds exampleOptions convergedService ''registry/web'' None
                 [(''A'', ''a'')]) = [] \<and>
   computeUpdatePlan convergedWorld exampleOptions convergedService [] =
     Some (Return (diffNeeds exampleOptions convergedService ''registry/web'' None
                     [(''A'', ''a'')]),
       [GetEcrRepositoryArn ''eu'' ''web'' (Got ''registry/web''),
        ListAutoScalingConfigurations ''web-scaling'' None (Got (None, None)),
        DescribeAutoScalingConfiguration ''scaling/1'' (Got (Some convergedRevision)),
        GetConfig ''eu'' ''main'' (Got [(''A'', ''a'')])]) \<and>
   updateAppRunnerService convergedWorld exampleOptions convergedService [] =
     Some (Return (),
       [GetEcrRepositoryArn ''eu'' ''web'' (Got ''registry/web''),
        ListAutoScalingConfigurations ''web-scaling'' None (Got (None, None)),
        DescribeAutoScalingConfiguration ''scaling/1'' (Got (Some convergedRevision)),
        GetConfig ''eu'' ''main'' (Got [(''A'', ''a'')])])"
  by (simp add: converged_plan_empty converged_plan converged_run)

text \<open>
  C1 at an update that changes only the image. The plan is \<^verbatim>\<open>["image"]\<close>, the update
  request carries a \<^verbatim>\<open>SourceConfiguration\<close> without \<^verbatim>\<open>ImageConfiguration\<close>, so no
  \<^verbatim>\<open>LETSGO_UPDATED_AT\<close> is submitted; the provider carries the update out and the service
  reaches \<^verbatim>\<open>RUNNING\<close> with the new image; the flow still compares the record's stamp with
  the fresh time stamp and ends in the rolled-back exit.
\<close>

theorem image_update_reported_rolled_back:
  "updateAppRunnerService updatedWorld newerOptions convergedService [] =
     Some (Exit RolledBack,
       [GetEcrRepositoryArn ''eu'' ''web'' (Got ''registry/web''),
        ListAutoScalingConfigurations ''web-scaling'' None (Got (None, None)),
        DescribeAutoScalingConfiguration ''scaling/1'' (Got (Some convergedRevision)),
        GetConfig ''eu'' ''main'' (Got [(''A'', ''a'')]),
        Now ''T1'',
        UpdateService (Some ''arn'') None None None
          (Some \<lparr>ImageIdentifier = ''registry/web:v2'', ImageRepositoryType = ''ECR'',
                  ImageConfiguration = None, AutoDeploymentsEnabled = False,
                  AccessRoleArn = ''role''\<rparr>) (Got ()),
        TagResource (Some ''arn'') (serviceTags updatedWorld newerOptions) (Got ()),
        DescribeService ''arn'' (Got (Some updatedService))]) \<and>
   Status updatedService = Some ''RUNNING'' \<and>
   ImageRepositoryImageIdentifier updatedService = Some ''registry/web:v2'' \<and>
   updatePlan (diffNeeds newerOptions convergedService ''registry/web'' None [(''A'', ''a'')]) =
     [''image'']"
  by (simp add: image_only_run newer_plan_image) (simp add: example_defs)

section \<open>Listing, discovery and dispatch\<close>

lemma servicePages_append [simp]:
  "servicePages (xs @ ys) = servicePages xs @ servicePages ys"
  by (induction xs) simp_all

lemma listServicesInPage_events:
  "\<exists>evs new. listServicesInPage w d c page services tr =
       (fst (listServicesInPage w d c page services tr), tr @ evs) \<and>
     list_all isListingCall evs \<and> servicePages evs = [] \<and>
     (\<forall>x. fst (listServicesInPage w d c page services tr) \<noteq> Exit x) \<and>
     (\<forall>services'. fst (listServicesInPage w d c page services tr) = Return services' \<longrightarrow>
        services' = services @ new \<and> set new \<subseteq> set page \<and>
        (\<forall>s\<in>set new. list_ex (showsBothTags w s) evs))"
proof (induction page arbitrary: services tr)
  case Nil
  show ?case by simp
next
  case (Cons service rest)
  define r where "r = onListTagsForResource w tr (orEmpty (ServiceArn service))"
  define e where "e = ListTagsForResource (orEmpty (ServiceArn service)) r"
  have le: "isListingCall e" "servicePages [e] = []"
    by (simp_all add: e_def isListingCall_def)
  show ?case
  proof (cases r)
    case (Threw err)
    have eq: "listServicesInPage w d c (service # rest) services tr = (Throw err, tr @ [e])"
      using Threw by (simp add: Let_def r_def [symmetric] e_def)
    show ?thesis
      unfolding eq using le by (intro exI [of _ "[e]"] exI [of _ "[]"]) simp
  next
    case (Got tags)
    define services1 where
      "services1 = (if letsGoMatch w d c tags then services @ [service] else services)"
    have eq: "listServicesInPage w d c (service # rest) services tr =
        listServicesInPage w d c rest services1 (tr @ [e])"
      using Got by (simp add: Let_def r_def [symmetric] e_def services1_def)
    from Cons [of services1 "tr @ [e]"] obtain evs new where
      ih: "listServicesInPage w d c rest services1 (tr @ [e]) =
             (fst (listServicesInPage w d c rest services1 (tr @ [e])), (tr @ [e]) @ evs)"
        "list_all isListingCall evs" "servicePages evs = []"
        "\<forall>x. fst (listServicesInPage w d c rest services1 (tr @ [e])) \<noteq> Exit x"
        "\<forall>services'. fst (listServicesInPage w d c rest services1 (tr @ [e])) = Return services' \<longrightarrow>
           services' = services1 @ new \<and> set new \<subseteq> set rest \<and>
           (\<forall>s\<in>set new. list_ex (showsBothTags w s) evs)"
      by (elim exE conjE)
    have shown: "showsBothTags w service e" if "letsGoMatch w d c tags"
      using that by (simp add: showsBothTags_def e_def Got letsGoMatch_def Let_def)
    define new1 where "new1 = (if letsGoMatch w d c tags then service # new else new)"
    have "listServicesInPage w d c rest services1 (tr @ [e]) =
       (fst (listServicesInPage w d c rest services1 (tr @ [e])), tr @ (e # evs)) \<and>
     list_all isListingCall (e # evs) \<and> servicePages (e # evs) = [] \<and>
     (\<forall>x. fst (listServicesInPage w d c rest services1 (tr @ [e])) \<noteq> Exit x) \<and>
     (\<forall>services'. fst (listServicesInPage w d c rest services1 (tr @ [e])) = Return services' \<longrightarrow>
        services' = services @ new1 \<and> set new1 \<subseteq> set (service # rest) \<and>
        (\<forall>s\<in>set new1. list_ex (showsBothTags w s) (e # evs)))"
    proof (intro conjI allI impI)
      show "listServicesInPage w d c rest services1 (tr @ [e]) =
       (fst (listServicesInPage w d c rest services1 (tr @ [e])), tr @ (e # evs))"
        using ih(1) by simp
      show "list_all isListingCall (e # evs)" using ih(2) le by simp
      show "servicePages (e # evs) = []" using ih(3) le by simp
      show "fst (listServicesInPage w d c rest services1 (tr @ [e])) \<noteq> Exit x" for x
        using ih(4) by simp
      fix services'
      assume "fst (listServicesInPage w d c rest services1 (tr @ [e])) = Return services'"
      with ih(5) have *: "services' = services1 @ new" "set new \<subseteq> set rest"
        "\<forall>s\<in>set new. list_ex (showsBothTags w s) evs" by auto
      show "services' = services @ new1" using *(1) by (simp add: services1_def new1_def)
      show "set new1 \<subseteq> set (service # rest)" using *(2) by (auto simp: new1_def)
      show "\<forall>s\<in>set new1. list_ex (showsBothTags w s) (e # evs)"
        using *(3) shown by (auto simp: new1_def)
    qed
    then show ?thesis unfolding eq by (intro exI)
  qed
qed

lemma list_ex_append_left: "list_ex P xs \<Longrightarrow> list_ex P (xs @ ys)"
  and list_ex_append_right: "list_ex P ys \<Longrightarrow> list_ex P (xs @ ys)"
  by (auto simp: list_ex_iff)

lemma listServicesLoop_events:
  assumes run: "listServicesLoop w d c token services tr = Some r"
  shows "\<exists>evs new. snd r = tr @ evs \<and> list_all isListingCall evs \<and>
     (\<forall>services'. fst r = Return services' \<longrightarrow>
        drained token (servicePages evs) \<and> services' = services @ new \<and>
        set new \<subseteq> set (listed (servicePages evs)) \<and>
        (\<forall>s\<in>set new. list_ex (showsBothTags w s) evs))"
proof (rule listServicesLoop.raw_induct
    [where P = "\<lambda>w d c token services tr r. \<exists>evs new. snd r = tr @ evs \<and> list_all isListingCall evs \<and>
     (\<forall>services'. fst r = Return services' \<longrightarrow>
        drained token (servicePages evs) \<and> services' = services @ new \<and>
        set new \<subseteq> set (listed (servicePages evs)) \<and>
        (\<forall>s\<in>set new. list_ex (showsBothTags w s) evs))", OF _ run])
  fix loop :: "world \<Rightarrow> string option \<Rightarrow> string option \<Rightarrow> string option \<Rightarrow> ServiceSummary list \<Rightarrow>
      event list \<Rightarrow> (ServiceSummary list outcome \<times> event list) option"
    and w :: world and d c token services tr
    and r :: "ServiceSummary list outcome \<times> event list"
  assume IH: "\<And>w d c token services tr r. loop w d c token services tr = Some r \<Longrightarrow> \<exists>evs new. snd r = tr @ evs \<and> list_all isListingCall evs \<and>
     (\<forall>services'. fst r = Return services' \<longrightarrow>
        drained token (servicePages evs) \<and> services' = services @ new \<and>
        set new \<subseteq> set (listed (servicePages evs)) \<and>
        (\<forall>s\<in>set new. list_ex (showsBothTags w s) evs))"
  define r0 where "r0 = onListServices w tr token"
  define e where "e = ListServices token r0"
  assume "(let r = onListServices w tr token;
          tr1 = tr @ [ListServices token r]
      in case r of
           Threw e \<Rightarrow> Some (Throw e, tr1)
         | Got result \<Rightarrow>
             (case listServicesInPage w d c
                     (case fst result of None \<Rightarrow> [] | Some page \<Rightarrow> page) services tr1 of
                (Return services', tr2) \<Rightarrow>
                  if \<not> truthy (snd result) then Some (Return services', tr2)
                  else loop w d c (snd result) services' tr2
              | (Exit x, tr2) \<Rightarrow> Some (Exit x, tr2)
              | (Throw e, tr2) \<Rightarrow> Some (Throw e, tr2))) = Some r"
  then have body: "(case r0 of
           Threw err \<Rightarrow> Some (Throw err, tr @ [e])
         | Got result \<Rightarrow>
             (case listServicesInPage w d c
                     (case fst result of None \<Rightarrow> [] | Some page \<Rightarrow> page) services
                     (tr @ [e]) of
                (Return services', tr2) \<Rightarrow>
                  if \<not> truthy (snd result) then Some (Return services', tr2)
                  else loop w d c (snd result) services' tr2
              | (Exit x, tr2) \<Rightarrow> Some (Exit x, tr2)
              | (Throw err, tr2) \<Rightarrow> Some (Throw err, tr2))) = Some r"
    unfolding Let_def r0_def e_def .
  show "\<exists>evs new. snd r = tr @ evs \<and> list_all isListingCall evs \<and>
     (\<forall>services'. fst r = Return services' \<longrightarrow>
        drained token (servicePages evs) \<and> services' = services @ new \<and>
        set new \<subseteq> set (listed (servicePages evs)) \<and>
        (\<forall>s\<in>set new. list_ex (showsBothTags w s) evs))"
  proof (cases r0)
    case (Threw err)
    with body have "r = (Throw err, tr @ [e])" by simp
    then show ?thesis
      by (intro exI [of _ "[e]"] exI [of _ "[]"]) (simp add: e_def isListingCall_def)
  next
    case (Got result)
    define page where "page = (case fst result of None \<Rightarrow> [] | Some page \<Rightarrow> page)"
    define out1 where "out1 = fst (listServicesInPage w d c page services (tr @ [e]))"
    from listServicesInPage_events [of w d c page services "tr @ [e]"] obtain evs new where
      pg: "listServicesInPage w d c page services (tr @ [e]) = (out1, (tr @ [e]) @ evs)"
        "list_all isListingCall evs" "servicePages evs = []"
        "\<forall>x. out1 \<noteq> Exit x"
        "\<forall>services'. out1 = Return services' \<longrightarrow>
           services' = services @ new \<and> set new \<subseteq> set page \<and>
           (\<forall>s\<in>set new. list_ex (showsBothTags w s) evs)"
      unfolding out1_def by (elim exE conjE)
    have pe: "servicePages [e] = [(token, page, snd result)]" "isListingCall e"
      by (simp_all add: e_def Got page_def isListingCall_def)
    from body Got have body': "(case out1 of
                Return services' \<Rightarrow>
                  if \<not> truthy (snd result) then Some (Return services', tr @ e # evs)
                  else loop w d c (snd result) services' (tr @ e # evs)
              | Exit x \<Rightarrow> Some (Exit x, tr @ e # evs)
              | Throw err \<Rightarrow> Some (Throw err, tr @ e # evs)) = Some r"
      by (simp add: page_def [symmetric] pg(1))
    show ?thesis
    proof (cases out1)
      case (Exit x)
      with pg(4) show ?thesis by simp
    next
      case (Throw err)
      with body' have "r = (Throw err, tr @ e # evs)" by simp
      with pg pe show ?thesis
        by (intro exI [of _ "e # evs"] exI [of _ "[]"]) simp
    next
      case (Return services1)
      with pg(5) have new: "services1 = services @ new" "set new \<subseteq> set page"
        "\<forall>s\<in>set new. list_ex (showsBothTags w s) evs" by auto
      show ?thesis
      proof (cases "truthy (snd result)")
        case False
        with body' Return have "r = (Return services1, tr @ e # evs)" by simp
        with pg pe new False show ?thesis
          by (intro exI [of _ "e # evs"] exI [of _ new]) (auto simp: listed_def)
      next
        case True
        with body' Return have "loop w d c (snd result) services1 (tr @ e # evs) = Some r"
          by simp
        from IH [OF this] obtain evs' new' where
          ih: "snd r = (tr @ e # evs) @ evs'" "list_all isListingCall evs'"
            "\<forall>services'. fst r = Return services' \<longrightarrow>
               drained (snd result) (servicePages evs') \<and> services' = services1 @ new' \<and>
               set new' \<subseteq> set (listed (servicePages evs')) \<and>
               (\<forall>s\<in>set new'. list_ex (showsBothTags w s) evs')"
          by (elim exE conjE)
        have "snd r = tr @ (e # evs @ evs') \<and> list_all isListingCall (e # evs @ evs') \<and>
          (\<forall>services'. fst r = Return services' \<longrightarrow>
             drained token (servicePages (e # evs @ evs')) \<and>
             services' = services @ (new @ new') \<and>
             set (new @ new') \<subseteq> set (listed (servicePages (e # evs @ evs'))) \<and>
             (\<forall>s\<in>set (new @ new'). list_ex (showsBothTags w s) (e # evs @ evs')))"
        proof (intro conjI allI impI)
          show "snd r = tr @ (e # evs @ evs')" using ih(1) by simp
          show "list_all isListingCall (e # evs @ evs')" using ih(2) pg(2) pe by simp
          fix services'
          assume "fst r = Return services'"
          with ih(3) have *: "drained (snd result) (servicePages evs')"
            "services' = services1 @ new'"
            "set new' \<subseteq> set (listed (servicePages evs'))"
            "\<forall>s\<in>set new'. list_ex (showsBothTags w s) evs'" by auto
          have pages: "servicePages (e # evs @ evs') =
              (token, page, snd result) # servicePages evs'"
            using pe(1) pg(3) by simp
          show "drained token (servicePages (e # evs @ evs'))"
            unfolding pages using * True by simp
          show "services' = services @ (new @ new')" using * new by simp
          show "set (new @ new') \<subseteq> set (listed (servicePages (e # evs @ evs')))"
            unfolding pages using *(3) new(2) by (auto simp: listed_def)
          show "\<forall>s\<in>set (new @ new'). list_ex (showsBothTags w s) (e # evs @ evs')"
            using *(4) new(3) by (auto simp: list_ex_iff)
        qed
        then show ?thesis by (intro exI)
      qed
    qed
  qed
qed

lemma waitLoop_polls:
  assumes run: "waitLoop w arn maxWait isDeleting clock delay tr = Some r"
    and describe: "\<And>arn r. Q (DescribeService arn r)" and sleep: "\<And>d. Q (Sleep d)"
  shows "\<exists>evs. snd r = tr @ evs \<and> list_all Q evs"
proof (rule waitLoop.raw_induct
    [where P = "\<lambda>w arn maxWait isDeleting clock delay tr r.
       \<exists>evs. snd r = tr @ evs \<and> list_all Q evs", OF _ run])
  fix loop :: "world \<Rightarrow> string \<Rightarrow> int \<Rightarrow> bool \<Rightarrow> int \<Rightarrow> int \<Rightarrow> event list \<Rightarrow>
      (Service option outcome \<times> event list) option"
    and w :: world and arn maxWait isDeleting clock delay tr
    and r :: "Service option outcome \<times> event list"
  assume IH: "\<And>w arn maxWait isDeleting clock delay tr r.
    loop w arn maxWait isDeleting clock delay tr = Some r \<Longrightarrow>
    \<exists>evs. snd r = tr @ evs \<and> list_all Q evs"
  define r0 where "r0 = onDescribeService w tr arn"
  define e where "e = DescribeService arn r0"
  define d where "d = nextDelay clock delay"
  assume "(let r = onDescribeService w tr arn;
          tr1 = tr @ [DescribeService arn r]
      in case r of
           Threw name \<Rightarrow>
             if name = ''ResourceNotFoundException'' \<and> isDeleting
             then Some (Return None, tr1)
             else Some (Throw name, tr1)
         | Got result \<Rightarrow>
             if isDeleting \<and> statusOf result = Some ''DELETED''
               then Some (Return None, tr1)
             else if isDeleting \<and> statusOf result \<noteq> Some ''OPERATION_IN_PROGRESS''
               then Some (Exit UnexpectedStatusDeleting, tr1)
             else if \<not> isDeleting \<and> statusOf result = Some ''RUNNING''
               then Some (Return result, tr1)
             else if \<not> isDeleting \<and> statusOf result \<noteq> Some ''OPERATION_IN_PROGRESS''
               then Some (Exit UnexpectedStatusCreating, tr1)
             else if clock \<ge> maxWait
               then Some (Return (if isDeleting then result else None), tr1)
             else loop w arn maxWait isDeleting
                    (clock + nextDelay clock delay) (nextDelay clock delay)
                    (tr1 @ [Sleep (nextDelay clock delay)])) = Some r"
  then have body: "snd r = tr @ [e] \<or>
      loop w arn maxWait isDeleting (clock + d) d ((tr @ [e]) @ [Sleep d]) = Some r"
    unfolding Let_def r0_def [symmetric] e_def [symmetric] d_def [symmetric]
    by (auto split: reply.splits if_splits)
  then show "\<exists>evs. snd r = tr @ evs \<and> list_all Q evs"
  proof
    assume "snd r = tr @ [e]"
    then show ?thesis by (intro exI [of _ "[e]"]) (simp add: e_def describe)
  next
    assume "loop w arn maxWait isDeleting (clock + d) d ((tr @ [e]) @ [Sleep d]) = Some r"
    from IH [OF this] obtain evs where "snd r = ((tr @ [e]) @ [Sleep d]) @ evs" "list_all Q evs"
      by blast
    then show ?thesis
      by (intro exI [of _ "e # Sleep d # evs"]) (simp add: e_def describe sleep)
  qed
qed

lemma emits_wait_polls:
  "(\<And>arn r. Q (DescribeService arn r)) \<Longrightarrow> (\<And>d. Q (Sleep d)) \<Longrightarrow>
   emits Q (waitForAppRunnerService w arn maxWait isDeleting)"
  unfolding emits_def waitForAppRunnerService_def
  by (blast intro: waitLoop_polls)

lemma emits_create_no_update:
  "emits (\<lambda>e. \<not> isUpdateFlowCall e) (createAppRunnerService w options)"
  unfolding createAppRunnerService_def [abs_def] Let_def
  by (intro emits_andThen emits_send emits_send_after emits_done emits_if emits_reclaim
        emits_case_option emits_wait_polls)
     (simp_all add: isUpdateFlowCall_def isReclaimCall_def split: event.splits)

lemmas listing_defs = listLetsGoAppRunnerServices_def listServicesLoop.simps Let_def
  letsGoMatch_def tagValue_def truthy_def orEmpty_def letsGoTags_def failedSummary_def
  twinSummary_def strangerSummary_def

lemma crowded_listing:
  "listLetsGoAppRunnerServices crowdedWorld filterD filterC [] =
     Some (Return (if (filterD = None \<or> filterD = Some [] \<or> filterD = Some ''main'') \<and>
                      (filterC = None \<or> filterC = Some [] \<or> filterC = Some ''web'')
                   then [failedSummary, twinSummary] else []), crowdedTrace)"
  by (auto simp: listing_defs crowdedWorld_def crowdedTrace_def convergedWorld_def
        quietWorld_def)

text \<open>
  C10. When the listing returns, it has drained the pages of \<^verbatim>\<open>ListServices\<close> through the
  continuation token, it has made listing and tag calls only, and every service it returns
  was on one of the pages and had its tags answered with a non-empty value for both the
  deployment tag and the component tag, whatever filters were supplied, also none.
\<close>

theorem listed_services_carry_both_tags:
  assumes "listLetsGoAppRunnerServices w deploymentFilter componentFilter tr =
      Some (Return services, tr')"
  shows "\<exists>evs. tr' = tr @ evs \<and> list_all isListingCall evs \<and>
     drained None (servicePages evs) \<and>
     (\<forall>service \<in> set services.
        service \<in> set (listed (servicePages evs)) \<and>
        list_ex (showsBothTags w service) evs)"
proof -
  from assms have "listServicesLoop w deploymentFilter componentFilter None [] tr =
      Some (Return services, tr')"
    by (simp add: listLetsGoAppRunnerServices_def)
  from listServicesLoop_events [OF this] obtain evs new where
    "tr' = tr @ evs" "list_all isListingCall evs"
    "drained None (servicePages evs)" "services = new"
    "set new \<subseteq> set (listed (servicePages evs))"
    "\<forall>s\<in>set new. list_ex (showsBothTags w s) evs"
    by auto
  then have "tr' = tr @ evs \<and> list_all isListingCall evs \<and>
     drained None (servicePages evs) \<and>
     (\<forall>service \<in> set services.
        service \<in> set (listed (servicePages evs)) \<and>
        list_ex (showsBothTags w service) evs)"
    by auto
  then show ?thesis by (intro exI)
qed

theorem listed_services_carry_both_tags_witness:
  "listLetsGoAppRunnerServices crowdedWorld None None [] =
     Some (Return [failedSummary, twinSummary], crowdedTrace) \<and>
   drained None (servicePages crowdedTrace) \<and>
   strangerSummary \<in> set (listed (servicePages crowdedTrace)) \<and>
   \<not> list_ex (showsBothTags crowdedWorld strangerSummary) crowdedTrace \<and>
   list_ex (showsBothTags crowdedWorld failedSummary) crowdedTrace \<and>
   list_ex (showsBothTags crowdedWorld twinSummary) crowdedTrace"
proof -
  have run: "listLetsGoAppRunnerServices crowdedWorld None None [] =
     Some (Return [failedSummary, twinSummary], crowdedTrace)"
    by (simp add: crowded_listing)
  from listed_services_carry_both_tags [OF run] obtain evs where
    "crowdedTrace = [] @ evs" "drained None (servicePages evs)"
    "\<forall>service \<in> set [failedSummary, twinSummary].
        service \<in> set (listed (servicePages evs)) \<and>
        list_ex (showsBothTags crowdedWorld service) evs"
    by (elim exE conjE)
  then have "drained None (servicePages crowdedTrace)"
    "list_ex (showsBothTags crowdedWorld failedSummary) crowdedTrace"
    "list_ex (showsBothTags crowdedWorld twinSummary) crowdedTrace"
    by simp_all
  moreover have "strangerSummary \<in> set (listed (servicePages crowdedTrace))"
    by (simp add: crowdedTrace_def listed_def)
  moreover have "\<not> list_ex (showsBothTags crowdedWorld strangerSummary) crowdedTrace"
    by (simp add: crowdedTrace_def showsBothTags_def listing_defs crowdedWorld_def
        convergedWorld_def quietWorld_def)
  ultimately show ?thesis using run by simp
qed

text \<open>
  C9. When the listing for the identity returns two or more summaries, the run ends in the
  exit for multiple services with the trace of the listing: it has made listing and tag
  calls only, so no create, update or delete call.
\<close>

theorem several_matches_are_fatal:
  assumes found: "listLetsGoAppRunnerServices w (Some (deployment options))
      (Some (component options)) tr = Some (Return services, tr1)"
    and several: "2 \<le> length services"
  shows "ensureAppRunner w options tr = Some (Exit MultipleServices, tr1) \<and>
     (\<exists>evs. tr1 = tr @ evs \<and> list_all isListingCall evs)"
proof
  from several show "ensureAppRunner w options tr = Some (Exit MultipleServices, tr1)"
    by (simp add: ensureAppRunner_def getOneLetsGoAppRunnerService_def found)
  from found have "listServicesLoop w (Some (deployment options)) (Some (component options))
      None [] tr = Some (Return services, tr1)"
    by (simp add: listLetsGoAppRunnerServices_def)
  from listServicesLoop_events [OF this]
  show "\<exists>evs. tr1 = tr @ evs \<and> list_all isListingCall evs" by auto
qed

theorem several_matches_are_fatal_witness:
  "ensureAppRunner crowdedWorld exampleOptions [] = Some (Exit MultipleServices, crowdedTrace) \<and>
   list_all isListingCall crowdedTrace"
proof -
  have found: "listLetsGoAppRunnerServices crowdedWorld (Some (deployment exampleOptions))
      (Some (component exampleOptions)) [] = Some (Return [failedSummary, twinSummary], crowdedTrace)"
    by (simp add: crowded_listing exampleOptions_def)
  have "2 \<le> length [failedSummary, twinSummary]" by simp
  from several_matches_are_fatal [OF found this] show ?thesis by simp
qed

lemma delete_shape:
  assumes "deleteAppRunnerService w arn tr = Some r"
  shows "\<exists>evs. snd r = tr @ DeleteService arn (onDeleteService w tr arn) # evs \<and>
     list_all (\<lambda>e. \<not> isUpdateFlowCall e) evs"
proof (cases "onDeleteService w tr arn")
  case (Threw err)
  with assms have "snd r = tr @ [DeleteService arn (onDeleteService w tr arn)]"
    by (auto simp: deleteAppRunnerService_def Let_def split: if_splits)
  then show ?thesis by simp
next
  case (Got u)
  define tr1 where "tr1 = tr @ [DeleteService arn (onDeleteService w tr arn)]"
  have "emits (\<lambda>e. \<not> isUpdateFlowCall e)
      (\<lambda>tr. andThen (waitForAppRunnerService w arn MaxWaitTimeForAppRunnerUpdate True tr)
         (\<lambda>service tr.
            if service \<noteq> None then Some (Exit DeleteDidNotReachDeleted, tr)
            else Some (Return (), tr)))"
    by (intro emits_andThen emits_if emits_done emits_wait_polls)
       (simp_all add: isUpdateFlowCall_def)
  moreover from assms Got have
    "andThen (waitForAppRunnerService w arn MaxWaitTimeForAppRunnerUpdate True tr1)
         (\<lambda>service tr.
            if service \<noteq> None then Some (Exit DeleteDidNotReachDeleted, tr)
            else Some (Return (), tr)) = Some r"
    by (simp add: deleteAppRunnerService_def Let_def tr1_def)
  ultimately obtain evs where "snd r = tr1 @ evs" "list_all (\<lambda>e. \<not> isUpdateFlowCall e) evs"
    unfolding emits_def by blast
  then show ?thesis by (simp add: tr1_def)
qed

text \<open>
  The delete flow after its delete call: refused, it ends at once; accepted, it polls until
  the service is gone or the wait gives up.
\<close>

lemma andThen_stopped:
  "\<forall>v. x \<noteq> Return v \<Longrightarrow>
   \<exists>y. andThen (Some (x, tr)) f = Some (y, tr) \<and> (\<forall>v. y \<noteq> Return v)"
  by (cases x) simp_all

lemma delete_accepted:
  assumes del: "onDeleteService w tr arn = Got u"
  shows "\<exists>out polls rp.
     waitForAppRunnerService w arn MaxWaitTimeForAppRunnerUpdate True
         (tr @ [DeleteService arn (Got u)]) =
       Some (out, tr @ DeleteService arn (Got u) # polls @ [DescribeService arn rp]) \<and>
     polled arn delayAfter 0 (polls @ [DescribeService arn rp]) \<and>
     (serviceGone rp \<longrightarrow>
        deleteAppRunnerService w arn tr =
          Some (Return (), tr @ DeleteService arn (Got u) # polls @ [DescribeService arn rp])) \<and>
     (\<not> serviceGone rp \<longrightarrow>
        (\<exists>x. deleteAppRunnerService w arn tr =
                Some (x, tr @ DeleteService arn (Got u) # polls @ [DescribeService arn rp]) \<and>
              (\<forall>v. x \<noteq> Return v))) \<and>
     (inProgress rp \<longrightarrow>
        MaxWaitTimeForAppRunnerUpdate \<le> slept polls \<and>
        deleteAppRunnerService w arn tr =
          Some (Exit DeleteDidNotReachDeleted,
                tr @ DeleteService arn (Got u) # polls @ [DescribeService arn rp]))"
proof -
  define tr1 where "tr1 = tr @ [DeleteService arn (Got u)]"
  define k :: "Service option \<Rightarrow> event list \<Rightarrow> unit run" where
    "k = (\<lambda>service tr.
            if service \<noteq> None then Some (Exit DeleteDidNotReachDeleted, tr)
            else Some (Return (), tr))"
  have flow: "deleteAppRunnerService w arn tr =
      andThen (waitForAppRunnerService w arn MaxWaitTimeForAppRunnerUpdate True tr1) k"
    using del by (simp add: deleteAppRunnerService_def Let_def tr1_def k_def)
  from waitFor_polled [of w arn MaxWaitTimeForAppRunnerUpdate True tr1]
  obtain out mid rp where
    wf: "waitForAppRunnerService w arn MaxWaitTimeForAppRunnerUpdate True tr1 =
           Some (out, tr1 @ mid @ [DescribeService arn rp])"
    and p: "polled arn delayAfter 0 (mid @ [DescribeService arn rp])"
    and g: "(out = Return None) = serviceGone rp"
    and t: "inProgress rp \<longrightarrow> MaxWaitTimeForAppRunnerUpdate \<le> slept mid \<and>
        (\<exists>s. rp = Got (Some s) \<and> out = Return (if True then Some s else None))"
    by (elim exE conjE) simp
  define tr2 where "tr2 = tr @ DeleteService arn (Got u) # mid @ [DescribeService arn rp]"
  have tr2: "tr1 @ mid @ [DescribeService arn rp] = tr2"
    by (simp add: tr1_def tr2_def)
  have run: "deleteAppRunnerService w arn tr = andThen (Some (out, tr2)) k"
    by (simp add: flow wf tr2)
  have c1: "waitForAppRunnerService w arn MaxWaitTimeForAppRunnerUpdate True
         (tr @ [DeleteService arn (Got u)]) = Some (out, tr2)"
    using wf by (simp add: tr1_def tr2_def)
  have c3: "serviceGone rp \<longrightarrow> deleteAppRunnerService w arn tr = Some (Return (), tr2)"
  proof
    assume "serviceGone rp"
    with g have "out = Return None" by simp
    then show "deleteAppRunnerService w arn tr = Some (Return (), tr2)"
      by (simp add: run k_def)
  qed
  have c4: "\<not> serviceGone rp \<longrightarrow>
      (\<exists>x. deleteAppRunnerService w arn tr = Some (x, tr2) \<and> (\<forall>v. x \<noteq> Return v))"
  proof
    assume "\<not> serviceGone rp"
    with g have ne: "out \<noteq> Return None" by simp
    show "\<exists>x. deleteAppRunnerService w arn tr = Some (x, tr2) \<and> (\<forall>v. x \<noteq> Return v)"
    proof (cases out)
      case (Return service)
      with ne have "service \<noteq> None" by simp
      with Return have "deleteAppRunnerService w arn tr = Some (Exit DeleteDidNotReachDeleted, tr2)"
        by (simp add: run k_def)
      then show ?thesis by simp
    next
      case (Exit x)
      then have "deleteAppRunnerService w arn tr = Some (Exit x, tr2)"
        by (simp add: run)
      then show ?thesis by simp
    next
      case (Throw err)
      then have "deleteAppRunnerService w arn tr = Some (Throw err, tr2)"
        by (simp add: run)
      then show ?thesis by simp
    qed
  qed
  have c5: "inProgress rp \<longrightarrow>
      MaxWaitTimeForAppRunnerUpdate \<le> slept mid \<and>
      deleteAppRunnerService w arn tr = Some (Exit DeleteDidNotReachDeleted, tr2)"
  proof
    assume "inProgress rp"
    with t obtain s where "MaxWaitTimeForAppRunnerUpdate \<le> slept mid" "out = Return (Some s)"
      by auto
    then show "MaxWaitTimeForAppRunnerUpdate \<le> slept mid \<and>
      deleteAppRunnerService w arn tr = Some (Exit DeleteDidNotReachDeleted, tr2)"
      by (simp add: run k_def)
  qed
  from c1 p c3 c4 c5 have
    "waitForAppRunnerService w arn MaxWaitTimeForAppRunnerUpdate True
         (tr @ [DeleteService arn (Got u)]) =
       Some (out, tr @ DeleteService arn (Got u) # mid @ [DescribeService arn rp]) \<and>
     polled arn delayAfter 0 (mid @ [DescribeService arn rp]) \<and>
     (serviceGone rp \<longrightarrow>
        deleteAppRunnerService w arn tr =
          Some (Return (), tr @ DeleteService arn (Got u) # mid @ [DescribeService arn rp])) \<and>
     (\<not> serviceGone rp \<longrightarrow>
        (\<exists>x. deleteAppRunnerService w arn tr =
                Some (x, tr @ DeleteService arn (Got u) # mid @ [DescribeService arn rp]) \<and>
              (\<forall>v. x \<noteq> Return v))) \<and>
     (inProgress rp \<longrightarrow>
        MaxWaitTimeForAppRunnerUpdate \<le> slept mid \<and>
        deleteAppRunnerService w arn tr =
          Some (Exit DeleteDidNotReachDeleted,
                tr @ DeleteService arn (Got u) # mid @ [DescribeService arn rp]))"
    unfolding tr2_def by (intro conjI)
  then show ?thesis by (intro exI)
qed

lemma delete_refused:
  assumes del: "onDeleteService w tr arn = Threw name"
  shows "deleteAppRunnerService w arn tr =
     (if name = ''InvalidStateException''
      then Some (Exit DeleteInvalidState, tr @ [DeleteService arn (Threw name)])
      else if name \<noteq> ''ResourceNotFoundException''
      then Some (Throw name, tr @ [DeleteService arn (Threw name)])
      else Some (Return (), tr @ [DeleteService arn (Threw name)]))"
  using del by (simp add: deleteAppRunnerService_def Let_def)


text \<open>
  C8. When the listing for the identity returns exactly one summary and its status is
  \<^verbatim>\<open>CREATE_FAILED\<close>, the run is the delete flow for that service followed, if the delete
  flow returns, by the create flow. When the delete call is refused, the run exits on
  \<^verbatim>\<open>InvalidStateException\<close>, rethrows any other error but \<^verbatim>\<open>ResourceNotFoundException\<close>,
  and on \<^verbatim>\<open>ResourceNotFoundException\<close> goes on with the create flow. When the delete call is
  accepted, the delete flow polls the service at the waiter's pace, each describe but the
  last answered in progress. If the last describe showed the service gone, the create flow
  runs from there; if not, the run ends there without returning and no create call is made;
  if the service was still in progress, \<open>MaxWaitTimeForAppRunnerUpdate\<close> seconds have been
  slept and the run exits. After the delete call no call of the update flow (describe of
  the autoscaling revision, update, tag) is ever made.
\<close>

theorem failed_create_is_deleted_then_created:
  assumes found: "listLetsGoAppRunnerServices w (Some (deployment options))
      (Some (component options)) tr = Some (Return [summary], tr1)"
    and failed: "Status summary = Some ''CREATE_FAILED''"
  shows "ensureAppRunner w options tr =
       andThen (deleteAppRunnerService w (orEmpty (ServiceArn summary)) tr1)
         (\<lambda>u. createAppRunnerService w options) \<and>
     (\<forall>name. onDeleteService w tr1 (orEmpty (ServiceArn summary)) = Threw name \<longrightarrow>
        ensureAppRunner w options tr =
          (if name = ''InvalidStateException''
           then Some (Exit DeleteInvalidState,
                  tr1 @ [DeleteService (orEmpty (ServiceArn summary)) (Threw name)])
           else if name \<noteq> ''ResourceNotFoundException''
           then Some (Throw name,
                  tr1 @ [DeleteService (orEmpty (ServiceArn summary)) (Threw name)])
           else createAppRunnerService w options
                  (tr1 @ [DeleteService (orEmpty (ServiceArn summary)) (Threw name)]))) \<and>
     (\<forall>u. onDeleteService w tr1 (orEmpty (ServiceArn summary)) = Got u \<longrightarrow>
        (\<exists>out polls rp.
           waitForAppRunnerService w (orEmpty (ServiceArn summary))
               MaxWaitTimeForAppRunnerUpdate True
               (tr1 @ [DeleteService (orEmpty (ServiceArn summary)) (Got u)]) =
             Some (out, tr1 @ DeleteService (orEmpty (ServiceArn summary)) (Got u) #
                          polls @ [DescribeService (orEmpty (ServiceArn summary)) rp]) \<and>
           polled (orEmpty (ServiceArn summary)) delayAfter 0
             (polls @ [DescribeService (orEmpty (ServiceArn summary)) rp]) \<and>
           (serviceGone rp \<longrightarrow>
              ensureAppRunner w options tr =
                createAppRunnerService w options
                  (tr1 @ DeleteService (orEmpty (ServiceArn summary)) (Got u) #
                     polls @ [DescribeService (orEmpty (ServiceArn summary)) rp])) \<and>
           (\<not> serviceGone rp \<longrightarrow>
              (\<exists>x. ensureAppRunner w options tr =
                      Some (x, tr1 @ DeleteService (orEmpty (ServiceArn summary)) (Got u) #
                                 polls @ [DescribeService (orEmpty (ServiceArn summary)) rp]) \<and>
                    (\<forall>v. x \<noteq> Return v))) \<and>
           (inProgress rp \<longrightarrow>
              MaxWaitTimeForAppRunnerUpdate \<le> slept polls \<and>
              ensureAppRunner w options tr =
                Some (Exit DeleteDidNotReachDeleted,
                  tr1 @ DeleteService (orEmpty (ServiceArn summary)) (Got u) #
                    polls @ [DescribeService (orEmpty (ServiceArn summary)) rp])))) \<and>
     (\<forall>r. ensureAppRunner w options tr = Some r \<longrightarrow>
        (\<exists>reply evs.
           snd r = tr1 @ DeleteService (orEmpty (ServiceArn summary)) reply # evs \<and>
           list_all (\<lambda>e. \<not> isUpdateFlowCall e) evs))"
proof (intro conjI allI impI)
  define arn where "arn = orEmpty (ServiceArn summary)"
  show run: "ensureAppRunner w options tr =
       andThen (deleteAppRunnerService w (orEmpty (ServiceArn summary)) tr1)
         (\<lambda>u. createAppRunnerService w options)"
    by (simp add: ensureAppRunner_def getOneLetsGoAppRunnerService_def found failed
        summaryStatus_def andThen_assoc)
  show "ensureAppRunner w options tr =
          (if name = ''InvalidStateException''
           then Some (Exit DeleteInvalidState,
                  tr1 @ [DeleteService (orEmpty (ServiceArn summary)) (Threw name)])
           else if name \<noteq> ''ResourceNotFoundException''
           then Some (Throw name,
                  tr1 @ [DeleteService (orEmpty (ServiceArn summary)) (Threw name)])
           else createAppRunnerService w options
                  (tr1 @ [DeleteService (orEmpty (ServiceArn summary)) (Threw name)]))"
    if "onDeleteService w tr1 (orEmpty (ServiceArn summary)) = Threw name" for name
    unfolding run delete_refused [OF that] by simp
  show "\<exists>out polls rp.
           waitForAppRunnerService w (orEmpty (ServiceArn summary))
               MaxWaitTimeForAppRunnerUpdate True
               (tr1 @ [DeleteService (orEmpty (ServiceArn summary)) (Got u)]) =
             Some (out, tr1 @ DeleteService (orEmpty (ServiceArn summary)) (Got u) #
                          polls @ [DescribeService (orEmpty (ServiceArn summary)) rp]) \<and>
           polled (orEmpty (ServiceArn summary)) delayAfter 0
             (polls @ [DescribeService (orEmpty (ServiceArn summary)) rp]) \<and>
           (serviceGone rp \<longrightarrow>
              ensureAppRunner w options tr =
                createAppRunnerService w options
                  (tr1 @ DeleteService (orEmpty (ServiceArn summary)) (Got u) #
                     polls @ [DescribeService (orEmpty (ServiceArn summary)) rp])) \<and>
           (\<not> serviceGone rp \<longrightarrow>
              (\<exists>x. ensureAppRunner w options tr =
                      Some (x, tr1 @ DeleteService (orEmpty (ServiceArn summary)) (Got u) #
                                 polls @ [DescribeService (orEmpty (ServiceArn summary)) rp]) \<and>
                    (\<forall>v. x \<noteq> Return v))) \<and>
           (inProgress rp \<longrightarrow>
              MaxWaitTimeForAppRunnerUpdate \<le> slept polls \<and>
              ensureAppRunner w options tr =
                Some (Exit DeleteDidNotReachDeleted,
                  tr1 @ DeleteService (orEmpty (ServiceArn summary)) (Got u) #
                    polls @ [DescribeService (orEmpty (ServiceArn summary)) rp]))"
    if del: "onDeleteService w tr1 (orEmpty (ServiceArn summary)) = Got u" for u
  proof -
    from del have del': "onDeleteService w tr1 arn = Got u" by (simp add: arn_def)
    from delete_accepted [OF del'] obtain out polls rp where
      c1: "waitForAppRunnerService w arn MaxWaitTimeForAppRunnerUpdate True
             (tr1 @ [DeleteService arn (Got u)]) =
           Some (out, tr1 @ DeleteService arn (Got u) # polls @ [DescribeService arn rp])"
      and c2: "polled arn delayAfter 0 (polls @ [DescribeService arn rp])"
      and gone: "serviceGone rp \<longrightarrow>
        deleteAppRunnerService w arn tr1 =
          Some (Return (), tr1 @ DeleteService arn (Got u) # polls @ [DescribeService arn rp])"
      and stays: "\<not> serviceGone rp \<longrightarrow>
        (\<exists>x. deleteAppRunnerService w arn tr1 =
                Some (x, tr1 @ DeleteService arn (Got u) # polls @ [DescribeService arn rp]) \<and>
              (\<forall>v. x \<noteq> Return v))"
      and late: "inProgress rp \<longrightarrow>
        MaxWaitTimeForAppRunnerUpdate \<le> slept polls \<and>
        deleteAppRunnerService w arn tr1 =
          Some (Exit DeleteDidNotReachDeleted,
                tr1 @ DeleteService arn (Got u) # polls @ [DescribeService arn rp])"
      by (elim exE conjE)
    define tr2 where
      "tr2 = tr1 @ DeleteService arn (Got u) # polls @ [DescribeService arn rp]"
    have run': "ensureAppRunner w options tr =
        andThen (deleteAppRunnerService w arn tr1) (\<lambda>u. createAppRunnerService w options)"
      by (simp add: run arn_def)
    have c3: "serviceGone rp \<longrightarrow>
        ensureAppRunner w options tr = createAppRunnerService w options tr2"
    proof
      assume "serviceGone rp"
      with gone have "deleteAppRunnerService w arn tr1 = Some (Return (), tr2)"
        by (simp add: tr2_def)
      then show "ensureAppRunner w options tr = createAppRunnerService w options tr2"
        by (simp add: run')
    qed
    have c4: "\<not> serviceGone rp \<longrightarrow>
        (\<exists>x. ensureAppRunner w options tr = Some (x, tr2) \<and> (\<forall>v. x \<noteq> Return v))"
    proof
      assume "\<not> serviceGone rp"
      with stays obtain x where
        x: "deleteAppRunnerService w arn tr1 = Some (x, tr2)" "\<forall>v. x \<noteq> Return v"
        unfolding tr2_def by blast
      from andThen_stopped [OF x(2), of tr2 "\<lambda>u. createAppRunnerService w options"]
      show "\<exists>x. ensureAppRunner w options tr = Some (x, tr2) \<and> (\<forall>v. x \<noteq> Return v)"
        by (simp add: run' x(1))
    qed
    have c5: "inProgress rp \<longrightarrow>
        MaxWaitTimeForAppRunnerUpdate \<le> slept polls \<and>
        ensureAppRunner w options tr = Some (Exit DeleteDidNotReachDeleted, tr2)"
    proof
      assume "inProgress rp"
      with late have "MaxWaitTimeForAppRunnerUpdate \<le> slept polls"
        "deleteAppRunnerService w arn tr1 = Some (Exit DeleteDidNotReachDeleted, tr2)"
        by (simp_all add: tr2_def)
      then show "MaxWaitTimeForAppRunnerUpdate \<le> slept polls \<and>
        ensureAppRunner w options tr = Some (Exit DeleteDidNotReachDeleted, tr2)"
        by (simp add: run')
    qed
    from c1 c2 c3 c4 c5 have
      "waitForAppRunnerService w arn MaxWaitTimeForAppRunnerUpdate True
             (tr1 @ [DeleteService arn (Got u)]) =
           Some (out, tr1 @ DeleteService arn (Got u) # polls @ [DescribeService arn rp]) \<and>
       polled arn delayAfter 0 (polls @ [DescribeService arn rp]) \<and>
       (serviceGone rp \<longrightarrow>
          ensureAppRunner w options tr =
            createAppRunnerService w options
              (tr1 @ DeleteService arn (Got u) # polls @ [DescribeService arn rp])) \<and>
       (\<not> serviceGone rp \<longrightarrow>
          (\<exists>x. ensureAppRunner w options tr =
                  Some (x, tr1 @ DeleteService arn (Got u) # polls @ [DescribeService arn rp]) \<and>
                (\<forall>v. x \<noteq> Return v))) \<and>
       (inProgress rp \<longrightarrow>
          MaxWaitTimeForAppRunnerUpdate \<le> slept polls \<and>
          ensureAppRunner w options tr =
            Some (Exit DeleteDidNotReachDeleted,
              tr1 @ DeleteService arn (Got u) # polls @ [DescribeService arn rp]))"
      unfolding tr2_def by (intro conjI)
    then show ?thesis unfolding arn_def by (intro exI)
  qed
  fix r
  assume "ensureAppRunner w options tr = Some r"
  then have "andThen (deleteAppRunnerService w (orEmpty (ServiceArn summary)) tr1)
         (\<lambda>u. createAppRunnerService w options) = Some r"
    by (simp add: run)
  then show "\<exists>reply evs.
           snd r = tr1 @ DeleteService (orEmpty (ServiceArn summary)) reply # evs \<and>
           list_all (\<lambda>e. \<not> isUpdateFlowCall e) evs"
  proof (cases rule: andThen_cases)
    case (continue u tr2)
    from delete_shape [OF continue(1)] obtain evs1 where
      1: "tr2 = tr1 @ DeleteService (orEmpty (ServiceArn summary))
            (onDeleteService w tr1 (orEmpty (ServiceArn summary))) # evs1"
        "list_all (\<lambda>e. \<not> isUpdateFlowCall e) evs1"
      by auto
    from emits_create_no_update [of w options] continue(2) obtain evs2 where
      2: "snd r = tr2 @ evs2" "list_all (\<lambda>e. \<not> isUpdateFlowCall e) evs2"
      unfolding emits_def by blast
    from 1 2 show ?thesis
      by (intro exI [of _ "onDeleteService w tr1 (orEmpty (ServiceArn summary))"]
            exI [of _ "evs1 @ evs2"]) simp
  next
    case (exit x)
    from delete_shape [OF exit(1)] show ?thesis by auto
  next
    case (throw err)
    from delete_shape [OF throw(1)] show ?thesis by auto
  qed
qed

lemma failed_listing:
  "listLetsGoAppRunnerServices failedWorld (Some ''main'') (Some ''web'') [] =
     Some (Return [failedSummary],
       [ListServices None (Got (Some [failedSummary], None)),
        ListTagsForResource ''arn'' (Got (Some letsGoTags))])"
  by (simp add: listing_defs failedWorld_def convergedWorld_def quietWorld_def)

lemma failed_wait:
  "waitForAppRunnerService failedWorld ''arn'' MaxWaitTimeForAppRunnerUpdate True
     [ListServices None (Got (Some [failedSummary], None)),
      ListTagsForResource ''arn'' (Got (Some letsGoTags)),
      DeleteService ''arn'' (Got ())] =
   Some (Return None,
     [ListServices None (Got (Some [failedSummary], None)),
      ListTagsForResource ''arn'' (Got (Some letsGoTags)),
      DeleteService ''arn'' (Got ()),
      DescribeService ''arn'' (Got (Some busyService)),
      Sleep 1,
      DescribeService ''arn'' (Threw ''ResourceNotFoundException'')])"
  by (simp add: waitForAppRunnerService_def waitLoop.simps Let_def failedWorld_def
        statusOf_def busyService_def MaxWaitTimeForAppRunnerUpdate_def nextDelay_def)

lemma failed_run:
  "ensureAppRunner failedWorld exampleOptions [] = Some (Return (), failedTrace)"
  by (simp add: ensureAppRunner_def getOneLetsGoAppRunnerService_def failed_listing
        exampleOptions_def [THEN arg_cong, of deployment]
        exampleOptions_def [THEN arg_cong, of component] summaryStatus_def andThen_assoc)
     (simp add: failedSummary_def deleteAppRunnerService_def createAppRunnerService_def
        failedTrace_def failedWorld_def createdService_def busyService_def nextDelay_def
        andThen_def send_def deleteUnusedAutoScalingConfigurations_def deleteUnusedLoop.simps
        waitForAppRunnerService_def waitLoop.simps Let_def world_defs example_defs test_defs
        MaxWaitTimeForAppRunnerUpdate_def MaxWaitTimeForAppRunnerCreate_def)


theorem failed_create_is_deleted_then_created_witness:
  "Status failedSummary = Some ''CREATE_FAILED'' \<and>
   onDeleteService failedWorld
     [ListServices None (Got (Some [failedSummary], None)),
      ListTagsForResource ''arn'' (Got (Some letsGoTags))] ''arn'' = Got () \<and>
   polled ''arn'' delayAfter 0
     [DescribeService ''arn'' (Got (Some busyService)), Sleep 1,
      DescribeService ''arn'' (Threw ''ResourceNotFoundException'')] \<and>
   inProgress (Got (Some busyService)) \<and>
   serviceGone (Threw ''ResourceNotFoundException'') \<and>
   ensureAppRunner failedWorld exampleOptions [] = Some (Return (), failedTrace) \<and>
   createAppRunnerService failedWorld exampleOptions
     [ListServices None (Got (Some [failedSummary], None)),
      ListTagsForResource ''arn'' (Got (Some letsGoTags)),
      DeleteService ''arn'' (Got ()),
      DescribeService ''arn'' (Got (Some busyService)), Sleep 1,
      DescribeService ''arn'' (Threw ''ResourceNotFoundException'')] =
     Some (Return (), failedTrace)"
proof -
  define pre where
    "pre = [ListServices None (Got (Some [failedSummary], None)),
            ListTagsForResource ''arn'' (Got (Some letsGoTags))]"
  have failed: "Status failedSummary = Some ''CREATE_FAILED''"
    by (simp add: failedSummary_def)
  have found: "listLetsGoAppRunnerServices failedWorld (Some (deployment exampleOptions))
      (Some (component exampleOptions)) [] = Some (Return [failedSummary], pre)"
    by (simp add: failed_listing exampleOptions_def pre_def)
  have arn: "orEmpty (ServiceArn failedSummary) = ''arn''"
    by (simp add: failedSummary_def orEmpty_def truthy_def)
  have del: "onDeleteService failedWorld pre (orEmpty (ServiceArn failedSummary)) = Got ()"
    by (simp add: failedWorld_def convergedWorld_def quietWorld_def)
  have busy: "inProgress (Got (Some busyService))"
    by (simp add: inProgress_def statusOf_def busyService_def)
  have gone: "serviceGone (Threw ''ResourceNotFoundException'')"
    by (simp add: serviceGone_def)
  from failed_create_is_deleted_then_created [OF found failed, THEN conjunct2, THEN conjunct2,
      THEN conjunct1, rule_format, OF del]
  obtain out polls rp where
    wait: "waitForAppRunnerService failedWorld ''arn'' MaxWaitTimeForAppRunnerUpdate True
        (pre @ [DeleteService ''arn'' (Got ())]) =
      Some (out, pre @ DeleteService ''arn'' (Got ()) # polls @ [DescribeService ''arn'' rp])"
    and paced: "polled ''arn'' delayAfter 0 (polls @ [DescribeService ''arn'' rp])"
    and created: "serviceGone rp \<longrightarrow>
      ensureAppRunner failedWorld exampleOptions [] =
        createAppRunnerService failedWorld exampleOptions
          (pre @ DeleteService ''arn'' (Got ()) # polls @ [DescribeService ''arn'' rp])"
    unfolding arn by (elim exE conjE)
  from wait failed_wait have
    "polls @ [DescribeService ''arn'' rp] =
       [DescribeService ''arn'' (Got (Some busyService)), Sleep 1] @
       [DescribeService ''arn'' (Threw ''ResourceNotFoundException'')]"
    by (simp add: pre_def)
  then have polls: "polls = [DescribeService ''arn'' (Got (Some busyService)), Sleep 1]"
    and rp: "rp = Threw ''ResourceNotFoundException''"
    unfolding append1_eq_conv by simp_all
  from paced have c3: "polled ''arn'' delayAfter 0
     [DescribeService ''arn'' (Got (Some busyService)), Sleep 1,
      DescribeService ''arn'' (Threw ''ResourceNotFoundException'')]"
    unfolding polls rp by simp
  from created gone have c7: "createAppRunnerService failedWorld exampleOptions
     [ListServices None (Got (Some [failedSummary], None)),
      ListTagsForResource ''arn'' (Got (Some letsGoTags)),
      DeleteService ''arn'' (Got ()),
      DescribeService ''arn'' (Got (Some busyService)), Sleep 1,
      DescribeService ''arn'' (Threw ''ResourceNotFoundException'')] =
     Some (Return (), failedTrace)"
    unfolding polls rp by (simp add: failed_run pre_def)
  from del have c2: "onDeleteService failedWorld
     [ListServices None (Got (Some [failedSummary], None)),
      ListTagsForResource ''arn'' (Got (Some letsGoTags))] ''arn'' = Got ()"
    unfolding arn pre_def .
  from failed c2 c3 busy gone failed_run c7 show ?thesis by (intro conjI)
qed


end
